theory Spec2Isabelle
  imports Complex_Main
begin

section \<open>JavaScript helpers\<close>

text \<open>
  A JavaScript number is an IEEE-754 double. A finite double is modelled by the real it
  denotes, and an arithmetic operation of the voice analysis by the exact operation
  followed by \<open>fl64\<close>, the rounding to the nearest double with ties to the even
  significand (53 bits, subnormals below 2 to the power -1022). Overflow to \<open>Infinity\<close>
  and \<open>NaN\<close> are not modelled. Counts, milliseconds and everything that went through
  \<open>Math.round\<close> or \<open>Math.floor\<close> are \<open>int\<close>. In the pressure engine the probability, a
  sum of a few decimals, is computed exactly.
\<close>

function log2_up :: "real \<Rightarrow> int" where
  \<comment> \<open>For \<open>1 \<le> m\<close>: the binary exponent of \<open>m\<close>, the largest \<open>e\<close> with \<open>2 ^ e \<le> m\<close>.\<close>
  "log2_up m = (if m < 2 then 0 else 1 + log2_up (m / 2))"
  by pat_completeness auto
termination
proof (relation "measure (\<lambda>m. nat \<lfloor>m\<rfloor>)")
  show "wf (measure (\<lambda>m::real. nat \<lfloor>m\<rfloor>))" by simp
next
  fix m :: real
  assume big: "\<not> m < 2"
  then have "m / 2 \<le> m - 1" by simp
  then have "\<lfloor>m / 2\<rfloor> \<le> \<lfloor>m - 1\<rfloor>" by (rule floor_mono)
  moreover have "\<lfloor>m - 1\<rfloor> = \<lfloor>m\<rfloor> - 1" by simp
  moreover have "1 \<le> \<lfloor>m\<rfloor>" using big by (simp add: le_floor_iff)
  ultimately show "(m / 2, m) \<in> measure (\<lambda>m. nat \<lfloor>m\<rfloor>)" by simp
qed

function log2_down :: "real \<Rightarrow> int" where
  \<comment> \<open>For \<open>0 < m < 1\<close>: the binary exponent of \<open>m\<close>, a negative number.\<close>
  "log2_down m = (if m \<le> 0 \<or> 1 \<le> m then 0 else log2_down (2 * m) - 1)"
  by pat_completeness auto
termination
proof (relation "measure (\<lambda>m. nat \<lfloor>1 / m\<rfloor>)")
  show "wf (measure (\<lambda>m::real. nat \<lfloor>1 / m\<rfloor>))" by simp
next
  fix m :: real
  assume "\<not> (m \<le> 0 \<or> 1 \<le> m)"
  then have m: "1 < 1 / m" by simp
  define y where "y = 1 / m"
  have y: "1 < y" using m by (simp add: y_def)
  have h: "1 / (2 * m) = y / 2" by (simp add: y_def)
  have lt: "\<lfloor>y / 2\<rfloor> < \<lfloor>y\<rfloor>"
  proof (cases "y < 2")
    case True
    have "0 \<le> y / 2" "y / 2 < 1" using y True by simp_all
    then have "\<lfloor>y / 2\<rfloor> = 0" by (simp add: floor_eq_iff)
    moreover have "1 \<le> \<lfloor>y\<rfloor>" using y by (simp add: le_floor_iff)
    ultimately show ?thesis by simp
  next
    case False
    then have "y / 2 \<le> y - 1" by simp
    then have "\<lfloor>y / 2\<rfloor> \<le> \<lfloor>y - 1\<rfloor>" by (rule floor_mono)
    then show ?thesis by simp
  qed
  have pos: "0 < \<lfloor>y\<rfloor>" using y by (simp add: less_floor_iff)
  show "(2 * m, m) \<in> measure (\<lambda>m. nat \<lfloor>1 / m\<rfloor>)"
    unfolding in_measure zless_nat_conj h y_def [symmetric] using lt pos by blast
qed

declare log2_up.simps [simp del] log2_down.simps [simp del]

definition pow2 :: "int \<Rightarrow> real" where
  "pow2 e = (if 0 \<le> e then 2 ^ nat e else 1 / 2 ^ nat (- e))"

definition ulp64 :: "real \<Rightarrow> real" where
  \<comment> \<open>The spacing of the doubles around a nonzero \<open>x\<close>.\<close>
  "ulp64 x = pow2 (max (if 1 \<le> \<bar>x\<bar> then log2_up \<bar>x\<bar> else log2_down \<bar>x\<bar>) (- 1022) - 52)"

definition round_half_even :: "real \<Rightarrow> int" where
  "round_half_even y =
     (if y - real_of_int \<lfloor>y\<rfloor> < 1 / 2 then \<lfloor>y\<rfloor>
      else if 1 / 2 < y - real_of_int \<lfloor>y\<rfloor> then \<lfloor>y\<rfloor> + 1
      else if even \<lfloor>y\<rfloor> then \<lfloor>y\<rfloor>
      else \<lfloor>y\<rfloor> + 1)"

definition fl64 :: "real \<Rightarrow> real" where
  \<comment> \<open>The double nearest to \<open>x\<close>, a tie going to the even significand.\<close>
  "fl64 x = (if x = 0 then 0 else real_of_int (round_half_even (x / ulp64 x)) * ulp64 x)"

definition fadd :: "real \<Rightarrow> real \<Rightarrow> real" where
  \<comment> \<open>\<open>a + b\<close> on doubles\<close>
  "fadd a b = fl64 (a + b)"

definition fsub :: "real \<Rightarrow> real \<Rightarrow> real" where
  \<comment> \<open>\<open>a - b\<close> on doubles\<close>
  "fsub a b = fl64 (a - b)"

definition fmul :: "real \<Rightarrow> real \<Rightarrow> real" where
  \<comment> \<open>\<open>a * b\<close> on doubles\<close>
  "fmul a b = fl64 (a * b)"

definition fdiv :: "real \<Rightarrow> real \<Rightarrow> real" where
  \<comment> \<open>\<open>a / b\<close> on doubles, for a divisor that is not zero\<close>
  "fdiv a b = fl64 (a / b)"

definition Math_round :: "real \<Rightarrow> int" where
  \<comment> \<open>\<open>Math.round\<close>: the nearest integer, a tie going up.\<close>
  "Math_round x = \<lfloor>x + 1 / 2\<rfloor>"

definition slice_last :: "nat \<Rightarrow> 'a list \<Rightarrow> 'a list" where
  \<comment> \<open>\<open>arr.slice(-n)\<close> for a positive \<open>n\<close>: the last \<open>n\<close> elements, or all of them.\<close>
  "slice_last n xs = drop (length xs - n) xs"

fun join_sp :: "string list \<Rightarrow> string" where
  \<comment> \<open>\<open>arr.join(' ')\<close>\<close>
  "join_sp [] = []"
| "join_sp [s] = s"
| "join_sp (s # t # ss) = s @ '' '' @ join_sp (t # ss)"

definition digit_char :: "nat \<Rightarrow> char" where
  "digit_char d = char_of (48 + d)"

fun show_nat :: "nat \<Rightarrow> string" where
  "show_nat n = (if n < 10 then [digit_char n] else show_nat (n div 10) @ [digit_char (n mod 10)])"

declare show_nat.simps [simp del]

definition show_int :: "int \<Rightarrow> string" where
  \<comment> \<open>The decimal text of an integer-valued number: \<open>x.toFixed(0)\<close>, and \<open>${x}\<close> in a template.\<close>
  "show_int i = (if i < 0 then ''-'' @ show_nat (nat (- i)) else show_nat (nat i))"

section \<open>Voice analysis service\<close>

record VoiceFrame =
  timestamp :: int
  rmsVolume :: real
  pitchHz :: real
  pitchVariance :: real
  speechRate :: real
  pauseDurationMs :: int
  fillerWordCount :: int
  wordCount :: int
  transcript :: string

record RawValues =
  avgPitch_r :: int
  avgVolume_r :: real
  avgSpeechRate_r :: int
  totalPauses :: int
  totalFillers :: int

record VoiceMetricsSnapshot =
  timestamp_m :: int
  voiceTremor :: int
  speechHesitation :: int
  toneDrop :: int
  volumeDrop :: int
  ideaAbandonment :: bool
  confidenceScore :: int
  rawValues :: RawValues

datatype StepBackType =
  VOICE_TREMOR | HESITATION | IDEA_ABANDON | TONE_DROP | VOLUME_DROP | CONFIDENCE_COLLAPSE

datatype Severity = MILD | MODERATE | SEVERE

record StepBackEvent =
  timestamp_e :: int
  event_type :: StepBackType
  severity :: Severity
  confidenceBefore :: int
  confidenceAfter :: int
  transcript_e :: string
  aiChallenge :: string
  description :: string

record Baseline =
  avgPitch :: real
  avgVolume :: real
  avgRate :: real

record VoiceAnalysisService =
  sessionFrames :: "string \<rightharpoonup> VoiceFrame list"
  baselines :: "string \<rightharpoonup> Baseline"

definition getRecentTranscript :: "VoiceAnalysisService \<Rightarrow> string \<Rightarrow> nat \<Rightarrow> string" where
  "getRecentTranscript vs sessionId n =
     (let frames = (case sessionFrames vs sessionId of None \<Rightarrow> [] | Some fs \<Rightarrow> fs)
      in join_sp (filter (\<lambda>t. t \<noteq> []) (map transcript (slice_last n frames))))"

definition detectStepBack ::
  "VoiceAnalysisService \<Rightarrow> string \<Rightarrow> VoiceMetricsSnapshot \<Rightarrow> VoiceMetricsSnapshot option
     \<Rightarrow> string \<Rightarrow> StepBackEvent option" where
  "detectStepBack vs sessionId currentMetrics previousMetrics challenge =
     (case previousMetrics of
        None \<Rightarrow> None
      | Some prev \<Rightarrow>
          let confidenceDrop = confidenceScore prev - confidenceScore currentMetrics;
              tr = getRecentTranscript vs sessionId 5;
              ev = \<lambda>ty sev d.
                     \<lparr> timestamp_e = timestamp_m currentMetrics,
                       event_type = ty,
                       severity = sev,
                       confidenceBefore = confidenceScore prev,
                       confidenceAfter = confidenceScore currentMetrics,
                       transcript_e = tr,
                       aiChallenge = challenge,
                       description = d \<rparr>
          in
            if confidenceDrop > 25 then
              Some (ev CONFIDENCE_COLLAPSE (if confidenceDrop > 40 then SEVERE else MODERATE)
                      (''Confidence dropped by '' @ show_int confidenceDrop
                         @ '' points after AI challenge''))
            else if ideaAbandonment currentMetrics then
              Some (ev IDEA_ABANDON MODERATE
                      ''Candidate abandoned their idea after AI interruption'')
            else if voiceTremor currentMetrics > 70 then
              Some (ev VOICE_TREMOR (if voiceTremor currentMetrics > 85 then SEVERE else MODERATE)
                      (''Voice tremor detected ('' @ show_int (voiceTremor currentMetrics)
                         @ ''/100)''))
            else if volumeDrop currentMetrics > 60 then
              Some (ev VOLUME_DROP (if volumeDrop currentMetrics > 80 then SEVERE else MILD)
                      (''Volume dropped significantly ('' @ show_int (volumeDrop currentMetrics)
                         @ ''/100)''))
            else if toneDrop currentMetrics > 60 then
              Some (ev TONE_DROP MILD
                      (''Pitch/tone declined ('' @ show_int (toneDrop currentMetrics)
                         @ ''/100)''))
            else None)"

definition avg :: "real list \<Rightarrow> real" where
  \<comment> \<open>The sum from the left, then the division, in doubles. The elements are numbers of
      the program: one that is no double stands for the double nearest to it.\<close>
  "avg arr =
     (if length arr = 0 then 0
      else fdiv (foldl (\<lambda>a b. fadd a (fl64 b)) 0 arr) (real (length arr)))"

definition toFixed3 :: "real \<Rightarrow> real" where
  \<comment> \<open>\<open>parseFloat(x.toFixed(3))\<close>: the decimal with three places nearest to the double,
      a tie going away from zero, read back as a double.\<close>
  "toFixed3 x = fl64 (if x < 0 then - (real_of_int \<lfloor>- x * 1000 + 1 / 2\<rfloor> / 1000)
                       else real_of_int \<lfloor>x * 1000 + 1 / 2\<rfloor> / 1000)"

definition voice_initSession :: "VoiceAnalysisService \<Rightarrow> string \<Rightarrow> VoiceAnalysisService" where
  "voice_initSession vs sessionId =
     vs\<lparr> sessionFrames := (sessionFrames vs)(sessionId \<mapsto> []),
         baselines := (baselines vs)(sessionId := None) \<rparr>"

definition voice_endSession :: "VoiceAnalysisService \<Rightarrow> string \<Rightarrow> VoiceAnalysisService" where
  "voice_endSession vs sessionId =
     vs\<lparr> sessionFrames := (sessionFrames vs)(sessionId := None),
         baselines := (baselines vs)(sessionId := None) \<rparr>"

definition calibrateBaseline ::
  "VoiceAnalysisService \<Rightarrow> string \<Rightarrow> VoiceFrame list \<Rightarrow> VoiceAnalysisService" where
  "calibrateBaseline vs sessionId frames =
     (let baselineFrames = filter (\<lambda>f. timestamp f \<le> 30000) frames
      in if length baselineFrames < 5 then vs
         else vs\<lparr> baselines := (baselines vs)(sessionId \<mapsto>
                    \<lparr> avgPitch = avg (map pitchHz baselineFrames),
                      avgVolume = avg (map rmsVolume baselineFrames),
                      avgRate = avg (map speechRate baselineFrames) \<rparr>) \<rparr>)"

definition computeMetrics ::
  "VoiceAnalysisService \<Rightarrow> string \<Rightarrow> VoiceFrame list \<Rightarrow> int \<Rightarrow> VoiceMetricsSnapshot" where
  \<comment> \<open>The last argument is the value of \<open>Date.now()\<close>. The counts are integers and
      are computed exactly.\<close>
  "computeMetrics vs sessionId frames now =
     (let recent = slice_last 10 frames;
          baseline = baselines vs sessionId;
          avgPitch' = avg (map pitchHz recent);
          avgVolume' = avg (map rmsVolume recent);
          avgRate' = avg (map speechRate recent);
          avgPitchVar = avg (map pitchVariance recent);
          totalPauses' = int (length (filter (\<lambda>f. pauseDurationMs f > 1500) recent));
          totalFillers' = foldl (\<lambda>sum f. sum + fillerWordCount f) 0 recent;
          voiceTremor' = min 100 (fmul avgPitchVar 5);
          fillerScore = min 50 (totalFillers' * 10);
          pauseScore = min 50 (totalPauses' * 15);
          speechHesitation' = min 100 (fillerScore + pauseScore);
          toneDrop' =
            (case baseline of
               None \<Rightarrow> 0
             | Some b \<Rightarrow>
                 if avgPitch b > 0
                 then max 0 (min 100
                        (fmul (fmul (fdiv (fsub (avgPitch b) avgPitch') (avgPitch b)) 100) 3))
                 else 0);
          volumeDrop' =
            (case baseline of
               None \<Rightarrow> 0
             | Some b \<Rightarrow>
                 if avgVolume b > 0
                 then max 0 (min 100
                        (fmul (fmul (fdiv (fsub (avgVolume b) avgVolume') (avgVolume b)) 100) 3))
                 else 0);
          lastFrame = (if recent = [] then None else Some (last recent));
          ideaAbandonment' =
            (case lastFrame of
               None \<Rightarrow> False
             | Some lf \<Rightarrow> pauseDurationMs lf > 3000 \<and> wordCount lf < 3 \<and> volumeDrop' > 40);
          tremorPenalty = fmul voiceTremor' (fl64 (2 / 10));
          hesitationPenalty = fmul (real_of_int speechHesitation') (fl64 (25 / 100));
          tonePenalty = fmul toneDrop' (fl64 (15 / 100));
          volumePenalty = fmul volumeDrop' (fl64 (2 / 10));
          abandonPenalty = (if ideaAbandonment' then 20 else 0);
          confidenceScore' =
            max 0 (min 100
              (fsub (fsub (fsub (fsub (fsub 100 tremorPenalty) hesitationPenalty) tonePenalty)
                      volumePenalty) abandonPenalty))
      in \<lparr> timestamp_m =
             (case lastFrame of
                None \<Rightarrow> now
              | Some lf \<Rightarrow> if timestamp lf = 0 then now else timestamp lf),
           voiceTremor = Math_round voiceTremor',
           speechHesitation = Math_round (real_of_int speechHesitation'),
           toneDrop = Math_round toneDrop',
           volumeDrop = Math_round volumeDrop',
           ideaAbandonment = ideaAbandonment',
           confidenceScore = Math_round confidenceScore',
           rawValues =
             \<lparr> avgPitch_r = Math_round avgPitch',
               avgVolume_r = toFixed3 avgVolume',
               avgSpeechRate_r = Math_round avgRate',
               totalPauses = totalPauses',
               totalFillers = totalFillers' \<rparr> \<rparr>)"

definition processFrame ::
  "VoiceAnalysisService \<Rightarrow> string \<Rightarrow> VoiceFrame \<Rightarrow> int
     \<Rightarrow> VoiceMetricsSnapshot \<times> VoiceAnalysisService" where
  "processFrame vs sessionId frame now =
     (let frames = (case sessionFrames vs sessionId of None \<Rightarrow> [] | Some fs \<Rightarrow> fs) @ [frame];
          vs1 = vs\<lparr> sessionFrames := (sessionFrames vs)(sessionId \<mapsto> frames) \<rparr>;
          vs2 = (if baselines vs1 sessionId = None \<and> timestamp frame > 30000
                    \<and> length frames > 10
                 then calibrateBaseline vs1 sessionId frames
                 else vs1)
      in (computeMetrics vs2 sessionId frames now, vs2))"

section \<open>Pressure engine\<close>

datatype InterruptionType = NONE | CHALLENGE | REDIRECT | DEMAND_CLARITY | DISMISS | PRESSURE_TEST

record InterruptionDecision =
  shouldInterrupt :: bool
  interruptionType :: InterruptionType
  text_d :: string
  ttsText :: string
  pressureLevel :: int
  tactic_d :: string
  waitBeforeMs :: int

record PressureState =
  currentLevel :: int
  interruptionCount :: int
  challengeCount :: int
  lastInterruptionAt :: int
  candidateStepBacks :: int
  escalationTriggers :: "string list"

record Category =
  type_c :: InterruptionType
  templates :: "string list"
  tactic_c :: string

definition em_dash :: string where
  \<comment> \<open>The character U+2014, in UTF-8.\<close>
  "em_dash = [CHR 0xE2, CHR 0x80, CHR 0x94]"

definition INTERRUPTIONS :: "int \<Rightarrow> Category list option" where
  \<comment> \<open>The table has the keys 1 to 5; any other key reads \<open>undefined\<close>.\<close>
  "INTERRUPTIONS level =
    (if level = 1 then Some
       [\<lparr> type_c = CHALLENGE,
          templates =
            [''Wait. Explain that again '' @ em_dash @ '' why did you choose this approach specifically?'',
             ''Hold on. How many people are in your group? You haven't accounted for everyone.'',
             ''Stop. What's your backup plan if this fails?''],
          tactic_c = ''Gentle probing '' @ em_dash @ '' testing clarity of thought'' \<rparr>]
     else if level = 2 then Some
       [\<lparr> type_c = DEMAND_CLARITY,
          templates =
            [''That doesn't make sense. You said one thing earlier and now you're contradicting yourself. Which is it?'',
             ''I'm not convinced. Give me a concrete reason why your plan would work in the field.'',
             ''You're wasting time. Get to the point '' @ em_dash @ '' what exactly is your plan?'',
             ''How many minutes do you think you have? You're already behind.''],
          tactic_c = ''Time pressure + logical inconsistency attack'' \<rparr>,
        \<lparr> type_c = REDIRECT,
          templates =
            [''Forget that approach. What else can you do?'',
             ''That's been tried before and it failed. Think of something original.''],
          tactic_c = ''Forcing candidate to abandon plan and think on feet'' \<rparr>]
     else if level = 3 then Some
       [\<lparr> type_c = DISMISS,
          templates =
            [''I don't think you've understood the problem at all. Start over.'',
             ''Your team is looking at you. Do you even have a plan or are you just talking?'',
             ''An officer needs to be decisive. You're not showing me that right now.'',
             ''Every second you hesitate, your group loses confidence in you.''],
          tactic_c = ''Direct dismissal '' @ em_dash @ '' testing emotional resilience'' \<rparr>,
        \<lparr> type_c = PRESSURE_TEST,
          templates =
            [''The enemy is advancing. You have 30 seconds. What do you do? NOW.'',
             ''Your subordinate just refused your order. The group is watching. React.''],
          tactic_c = ''Extreme time pressure '' @ em_dash @ '' chaos injection'' \<rparr>]
     else if level = 4 then Some
       [\<lparr> type_c = PRESSURE_TEST,
          templates =
            [''You just lost two team members. Your plan is falling apart. What now?'',
             ''I've heard better plans from cadets on their first day. Prove me wrong.'',
             ''If this were real, people would be in danger because of your indecisiveness. Do better.'',
             ''Stop. Look at me. Tell me ONE reason I should let you continue leading this task.''],
          tactic_c = ''Personal challenge '' @ em_dash @ '' testing core confidence'' \<rparr>,
        \<lparr> type_c = DISMISS,
          templates =
            [''You clearly haven't prepared for this. Why are you here?'',
             ''An officer leads from the front. Right now you're hiding behind words.''],
          tactic_c = ''Identity-level challenge '' @ em_dash @ '' maximum psychological pressure'' \<rparr>]
     else if level = 5 then Some
       [\<lparr> type_c = PRESSURE_TEST,
          templates =
            [''Fine. Your plan failed. Two casualties. The mission is compromised. NOW what?'',
             ''The entire group has lost faith in you. You have 10 seconds to win them back. Go.'',
             ''I'm pulling you from command. Unless you can show me RIGHT NOW that you deserve to lead.'',
             ''This is your last chance. One clear, decisive action. What is it?''],
          tactic_c = ''Maximum pressure '' @ em_dash @ '' crisis simulation '' @ em_dash @ '' pass/fail moment'' \<rparr>]
     else None)"

typedef random_draw = "{r::real. 0 \<le> r \<and> r < 1}"
  morphisms draw_value Draw
  by (rule exI[of _ 0]) simp

record RandomSource =
  \<comment> \<open>The values of the calls of \<open>Math.random()\<close> in \<open>evaluateInterruption\<close>, in order.\<close>
  r_fire :: random_draw
  r_category :: random_draw
  r_template :: random_draw
  r_immediate :: random_draw
  r_delay :: random_draw

datatype js_error = TypeError

type_synonym PressureEngine = "string \<rightharpoonup> PressureState"

definition js_rem :: "int \<Rightarrow> int \<Rightarrow> int" where
  \<comment> \<open>The remainder operator \<open>%\<close> on integers: the sign of the dividend.\<close>
  "js_rem a b = sgn a * (\<bar>a\<bar> mod \<bar>b\<bar>)"

definition pressure_initSession :: "PressureEngine \<Rightarrow> string \<Rightarrow> PressureEngine" where
  "pressure_initSession states sessionId =
     states(sessionId \<mapsto>
       \<lparr> currentLevel = 1, interruptionCount = 0, challengeCount = 0,
         lastInterruptionAt = 0, candidateStepBacks = 0, escalationTriggers = [] \<rparr>)"

definition pressure_endSession ::
  "PressureEngine \<Rightarrow> string \<Rightarrow> PressureState option \<times> PressureEngine" where
  "pressure_endSession states sessionId = (states sessionId, states(sessionId := None))"

definition noInterrupt :: "int \<Rightarrow> InterruptionDecision" where
  "noInterrupt level =
     \<lparr> shouldInterrupt = False, interruptionType = NONE, text_d = '''', ttsText = '''',
       pressureLevel = level, tactic_d = '''', waitBeforeMs = 0 \<rparr>"

definition evaluateEscalation :: "PressureState \<Rightarrow> VoiceMetricsSnapshot \<Rightarrow> PressureState" where
  "evaluateEscalation state metrics =
     (let maxLevel = 5 in
      if currentLevel state \<ge> maxLevel then state
      else
        let s1 =
              (if js_rem (interruptionCount state) 3 = 0 \<and> interruptionCount state > 0
               then
                 let l = min maxLevel (currentLevel state + 1)
                 in state\<lparr> currentLevel := l,
                           escalationTriggers := escalationTriggers state @
                             [''Escalated to L'' @ show_int l @ '' after ''
                                @ show_int (interruptionCount state) @ '' interruptions''] \<rparr>
               else state)
        in
          if confidenceScore metrics > 80 \<and> interruptionCount s1 > 2
          then
            let l = min maxLevel (currentLevel s1 + 1)
            in s1\<lparr> currentLevel := l,
                    escalationTriggers := escalationTriggers s1 @
                      [''Escalated to L'' @ show_int l @ '' '' @ em_dash
                         @ '' candidate too confident''] \<rparr>
          else s1)"

definition random_index :: "random_draw \<Rightarrow> nat \<Rightarrow> nat" where
  \<comment> \<open>\<open>Math.floor(Math.random() * n)\<close>\<close>
  "random_index r n = nat \<lfloor>draw_value r * real n\<rfloor>"

definition evaluateInterruption ::
  "PressureEngine \<Rightarrow> string \<Rightarrow> VoiceMetricsSnapshot \<Rightarrow> int \<Rightarrow> int \<Rightarrow> RandomSource
     \<Rightarrow> js_error + (InterruptionDecision \<times> PressureEngine)" where
  "evaluateInterruption states sessionId metrics elapsedMs candidateWordsSinceLastInterrupt rnd =
     (case states sessionId of
        None \<Rightarrow> Inr (noInterrupt 1, states)
      | Some state \<Rightarrow>
          let timeSinceLastInterrupt = elapsedMs - lastInterruptionAt state;
              minGapMs = max 8000 (25000 - currentLevel state * 4000);
              minWords = max 10 (40 - currentLevel state * 6);
              probability =
                3 / 10 + real_of_int (currentLevel state) * (12 / 100)
                  + (if confidenceScore metrics > 70 then 15 / 100 else 0)
                  + (if confidenceScore metrics > 85 then 15 / 100 else 0)
          in
            if elapsedMs < 15000 then Inr (noInterrupt (currentLevel state), states)
            else if timeSinceLastInterrupt < minGapMs
              then Inr (noInterrupt (currentLevel state), states)
            else if candidateWordsSinceLastInterrupt < minWords
              then Inr (noInterrupt (currentLevel state), states)
            else if draw_value (r_fire rnd) > probability
              then Inr (noInterrupt (currentLevel state), states)
            else
              (case INTERRUPTIONS (currentLevel state) of
                 None \<Rightarrow> Inl TypeError
               | Some pool \<Rightarrow>
                   let category = pool ! random_index (r_category rnd) (length pool);
                       txt = templates category
                               ! random_index (r_template rnd) (length (templates category));
                       state1 = state\<lparr> interruptionCount := interruptionCount state + 1,
                                        challengeCount := challengeCount state + 1,
                                        lastInterruptionAt := elapsedMs \<rparr>;
                       state2 = evaluateEscalation state1 metrics
                   in Inr (\<lparr> shouldInterrupt = True,
                              interruptionType = type_c category,
                              text_d = txt,
                              ttsText = txt,
                              pressureLevel = currentLevel state2,
                              tactic_d = tactic_c category,
                              waitBeforeMs =
                                (if draw_value (r_immediate rnd) < 3 / 10 then 0
                                 else \<lfloor>draw_value (r_delay rnd) * 2000\<rfloor>) \<rparr>,
                            states(sessionId \<mapsto> state2))))"

definition recordStepBack :: "PressureEngine \<Rightarrow> string \<Rightarrow> PressureEngine" where
  "recordStepBack states sessionId =
     (case states sessionId of
        None \<Rightarrow> states
      | Some state \<Rightarrow>
          let s1 = state\<lparr> candidateStepBacks := candidateStepBacks state + 1 \<rparr>;
              s2 = s1\<lparr> escalationTriggers := escalationTriggers s1 @
                         [''Step-back #'' @ show_int (candidateStepBacks s1) @ '' detected''] \<rparr>;
              s3 = (if candidateStepBacks s2 \<ge> 3 \<and> currentLevel s2 > 2
                    then s2\<lparr> currentLevel := max 2 (currentLevel s2 - 1) \<rparr>
                    else s2)
          in states(sessionId \<mapsto> s3))"

definition getState :: "PressureEngine \<Rightarrow> string \<Rightarrow> PressureState option" where
  "getState states sessionId = states sessionId"

section \<open>Simulation gateway\<close>

datatype TaskType = PGT | HGT | FGT | COMMAND_TASK | GPE | GD | LECTURETTE

datatype Difficulty = STANDARD | HARD | EXTREME

record SimulationConfig =
  taskType :: TaskType
  durationSec :: int
  groupSize :: int
  scenario :: string
  difficulty :: Difficulty

record AiIntervention =
  timestamp_i :: int
  text_i :: string
  type_i :: InterruptionType
  level_i :: int

record SimSocket =
  \<comment> \<open>A socket after \<open>handleConnection\<close> has authenticated it and set its lists and counter.\<close>
  socket_id :: string
  userId :: string
  rooms :: "string set"
  sessionId :: "string option"
  sessionStartMs :: "int option"
  wordsSinceLastInterrupt :: int
  previousMetrics :: "VoiceMetricsSnapshot option"
  lastAiChallenge :: "string option"
  stepBackEvents :: "StepBackEvent list"
  fullTranscript :: "string list"
  aiInterventions :: "AiIntervention list"

datatype SpeakType = OPENING | TIME_WARNING | TIME_UP

record EndedPayload =
  sessionId_p :: string
  totalStepBacks :: int
  totalInterruptions :: int
  maxPressureLevel :: int

datatype ws_event =
    Connected
  | AiSpeak SpeakType int
  | Started string TaskType int
  | Metrics VoiceMetricsSnapshot
  | StepBack StepBackEvent
  | AiInterrupt InterruptionDecision
  | Ended EndedPayload
  | Tick int int

text \<open>
  \<open>AiSpeak\<close> carries the type and the pressure level of \<open>sim:ai_speak\<close>; its scripted text
  is left out (the opening statement prints \<open>durationSec / 60\<close> as JavaScript prints a
  number). \<open>Tick\<close> carries \<open>remaining\<close> and \<open>elapsed\<close>.
\<close>

datatype emission =
    ToClient string ws_event  \<comment> \<open>\<open>client.emit\<close>, by socket id\<close>
  | ToRoom string ws_event    \<comment> \<open>\<open>server.to(room).emit\<close>\<close>

datatype SessionStatus = ACTIVE | COMPLETED

record SessionCreate =
  userId_c :: string
  taskType_c :: TaskType
  status_c :: SessionStatus
  durationSec_c :: int
  startedAt :: int
  isGD :: bool
  scenario_c :: string
  difficulty_c :: Difficulty
  groupSize_c :: int

record SessionUpdate =
  status_u :: SessionStatus
  completedAt :: int
  transcript_u :: string
  stepBackEvents_u :: "StepBackEvent list"
  aiInterventions_u :: "AiIntervention list"
  pressureFinalState :: "PressureState option"
  endReason :: string

record AgentLog =
  userId_a :: string
  agentName :: string
  action :: string
  inputPayload :: StepBackEvent
  outputPayload :: "PressureState option"

datatype db_write =
    SessionCreated string SessionCreate   \<comment> \<open>\<open>gTOTestSession.create\<close>, with the id the store gave\<close>
  | SessionUpdated string SessionUpdate   \<comment> \<open>\<open>gTOTestSession.update\<close>, by id\<close>
  | AgentLogCreated AgentLog              \<comment> \<open>\<open>agentLog.create\<close>\<close>

record Countdown =
  \<comment> \<open>The variables an interval callback of \<open>startCountdown\<close> closes over, and when it is due.\<close>
  cd_sessionId :: string
  cd_durationSec :: int
  cd_remaining :: int
  cd_due :: int

record Timeout =
  \<comment> \<open>A one-shot of \<open>setTimeout\<close> in \<open>handleVoiceFrame\<close>: due time, socket and payload.\<close>
  to_due :: int
  to_client :: string
  to_decision :: InterruptionDecision

record Gateway =
  intervals :: "nat \<rightharpoonup> Countdown"   \<comment> \<open>the live intervals of \<open>setInterval\<close>, by handle\<close>
  nextHandle :: nat
  timeouts :: "Timeout list"           \<comment> \<open>the pending one-shots\<close>
  timers :: "string \<rightharpoonup> nat"          \<comment> \<open>\<open>this.timers\<close>: session id to interval handle\<close>
  voiceAnalysis :: VoiceAnalysisService
  pressureEngine :: PressureEngine
  prisma :: "db_write list"            \<comment> \<open>the writes sent to the store, in order\<close>
  emitted :: "emission list"           \<comment> \<open>the events emitted, in order\<close>

definition emit :: "emission \<Rightarrow> Gateway \<Rightarrow> Gateway" where
  "emit e g = g\<lparr> emitted := emitted g @ [e] \<rparr>"

definition db_send :: "db_write \<Rightarrow> Gateway \<Rightarrow> Gateway" where
  "db_send w g = g\<lparr> prisma := prisma g @ [w] \<rparr>"

definition room_of :: "string \<Rightarrow> string" where
  "room_of sid = ''sim:'' @ sid"

definition handleConnection :: "string \<Rightarrow> string option \<Rightarrow> Gateway \<Rightarrow> SimSocket option \<times> Gateway" where
  \<comment> \<open>The second argument is the subject of the verified token, or \<open>None\<close> when the token is
      missing or refused; the \<open>error\<close> emission of that branch is not recorded.\<close>
  "handleConnection cid verified g =
     (case verified of
        None \<Rightarrow> (None, g)
      | Some uid \<Rightarrow>
          (Some \<lparr> socket_id = cid, userId = uid, rooms = {}, sessionId = None,
                  sessionStartMs = None, wordsSinceLastInterrupt = 0, previousMetrics = None,
                  lastAiChallenge = None, stepBackEvents = [], fullTranscript = [],
                  aiInterventions = [] \<rparr>,
           emit (ToClient cid Connected) g))"

definition cleanup :: "Gateway \<Rightarrow> string \<Rightarrow> Gateway" where
  "cleanup g sid =
     (case timers g sid of
        None \<Rightarrow> g
      | Some interval \<Rightarrow>
          g\<lparr> intervals := (intervals g)(interval := None),
             timers := (timers g)(sid := None) \<rparr>)"

definition handleDisconnect :: "SimSocket \<Rightarrow> Gateway \<Rightarrow> Gateway" where
  "handleDisconnect client g =
     (case sessionId client of
        None \<Rightarrow> g
      | Some sid \<Rightarrow>
          let g1 = cleanup g sid;
              g2 = g1\<lparr> voiceAnalysis := voice_endSession (voiceAnalysis g1) sid \<rparr>
          in g2\<lparr> pressureEngine := snd (pressure_endSession (pressureEngine g2) sid) \<rparr>)"

definition startCountdown :: "Gateway \<Rightarrow> string \<Rightarrow> int \<Rightarrow> int \<Rightarrow> Gateway" where
  \<comment> \<open>The last argument is the time of the call; the interval is first due a second later.\<close>
  "startCountdown g sid duration now =
     (let interval = nextHandle g
      in g\<lparr> intervals := (intervals g)(interval \<mapsto>
                 \<lparr> cd_sessionId = sid, cd_durationSec = duration, cd_remaining = duration,
                   cd_due = now + 1000 \<rparr>),
            nextHandle := Suc interval,
            timers := (timers g)(sid \<mapsto> interval) \<rparr>)"

definition handleStart ::
  "SimulationConfig \<Rightarrow> SimSocket \<Rightarrow> Gateway \<Rightarrow> string \<Rightarrow> int \<Rightarrow> SimSocket \<times> Gateway" where
  \<comment> \<open>The last two arguments are the id the store gives the new session and \<open>Date.now()\<close>.\<close>
  "handleStart config client g newId now =
     (let g1 = db_send (SessionCreated newId
                  \<lparr> userId_c = userId client, taskType_c = taskType config, status_c = ACTIVE,
                    durationSec_c = durationSec config, startedAt = now,
                    isGD = (taskType config = GD), scenario_c = scenario config,
                    difficulty_c = difficulty config, groupSize_c = groupSize config \<rparr>) g;
          client1 = client\<lparr> sessionId := Some newId, sessionStartMs := Some now,
                             rooms := insert (room_of newId) (rooms client) \<rparr>;
          g2 = g1\<lparr> voiceAnalysis := voice_initSession (voiceAnalysis g1) newId \<rparr>;
          g3 = g2\<lparr> pressureEngine := pressure_initSession (pressureEngine g2) newId \<rparr>;
          g4 = startCountdown g3 newId (durationSec config) now;
          g5 = emit (ToClient (socket_id client1) (AiSpeak OPENING 1)) g4;
          g6 = emit (ToClient (socket_id client1)
                       (Started newId (taskType config) (durationSec config))) g5
      in (client1, g6))"

definition handleEnd ::
  "string option \<Rightarrow> SimSocket \<Rightarrow> Gateway \<Rightarrow> int \<Rightarrow> SimSocket \<times> Gateway" where
  \<comment> \<open>The first argument is \<open>data.reason\<close>, the last \<open>Date.now()\<close>.\<close>
  "handleEnd reason client g now =
     (case sessionId client of
        None \<Rightarrow> (client, g)
      | Some sid \<Rightarrow>
          let g1 = cleanup g sid;
              (pressureState, pe) = pressure_endSession (pressureEngine g1) sid;
              g2 = g1\<lparr> pressureEngine := pe \<rparr>;
              g3 = g2\<lparr> voiceAnalysis := voice_endSession (voiceAnalysis g2) sid \<rparr>;
              g4 = db_send (SessionUpdated sid
                     \<lparr> status_u = COMPLETED, completedAt = now,
                       transcript_u = join_sp (fullTranscript client),
                       stepBackEvents_u = stepBackEvents client,
                       aiInterventions_u = aiInterventions client,
                       pressureFinalState = pressureState,
                       endReason = (case reason of
                                      None \<Rightarrow> ''MANUAL''
                                    | Some r \<Rightarrow> if r = [] then ''MANUAL'' else r) \<rparr>) g3;
              g5 = emit (ToClient (socket_id client) (Ended
                     \<lparr> sessionId_p = sid,
                       totalStepBacks = int (length (stepBackEvents client)),
                       totalInterruptions =
                         (case pressureState of None \<Rightarrow> 0 | Some s \<Rightarrow> interruptionCount s),
                       maxPressureLevel =
                         (case pressureState of
                            None \<Rightarrow> 1
                          | Some s \<Rightarrow> if currentLevel s = 0 then 1 else currentLevel s) \<rparr>)) g4
          in (client, g5))"

definition handleVoiceFrame ::
  "VoiceFrame \<Rightarrow> SimSocket \<Rightarrow> Gateway \<Rightarrow> int \<Rightarrow> RandomSource \<Rightarrow> SimSocket \<times> Gateway" where
  \<comment> \<open>The last two arguments are \<open>Date.now()\<close> and the draws of \<open>Math.random()\<close>. When
      \<open>evaluateInterruption\<close> throws, the handler stops there and keeps what it did before.\<close>
  "handleVoiceFrame frame client g now rnd =
     (case sessionId client of
        None \<Rightarrow> (client, g)
      | Some sid \<Rightarrow>
          let client1 =
                (if transcript frame \<noteq> []
                 then client\<lparr> fullTranscript := fullTranscript client @ [transcript frame],
                                wordsSinceLastInterrupt :=
                                  wordsSinceLastInterrupt client + wordCount frame \<rparr>
                 else client);
              (metrics, va) = processFrame (voiceAnalysis g) sid frame now;
              g1 = emit (ToClient (socket_id client1) (Metrics metrics))
                     (g\<lparr> voiceAnalysis := va \<rparr>);
              stepBack = detectStepBack (voiceAnalysis g1) sid metrics (previousMetrics client1)
                           (case lastAiChallenge client1 of None \<Rightarrow> '''' | Some t \<Rightarrow> t);
              (client2, g2) =
                (case stepBack of
                   None \<Rightarrow> (client1, g1)
                 | Some sb \<Rightarrow>
                     let c = client1\<lparr> stepBackEvents := stepBackEvents client1 @ [sb] \<rparr>;
                         ga = g1\<lparr> pressureEngine := recordStepBack (pressureEngine g1) sid \<rparr>;
                         gb = db_send (AgentLogCreated
                                \<lparr> userId_a = userId c, agentName = ''GTO_SIMULATION'',
                                  action = ''STEP_BACK_DETECTED'', inputPayload = sb,
                                  outputPayload = getState (pressureEngine ga) sid \<rparr>) ga
                     in (c, emit (ToClient (socket_id c) (StepBack sb)) gb));
              elapsed = now - (case sessionStartMs client2 of None \<Rightarrow> 0 | Some t \<Rightarrow> t)
          in
            (case evaluateInterruption (pressureEngine g2) sid metrics elapsed
                    (wordsSinceLastInterrupt client2) rnd of
               Inl err \<Rightarrow> (client2, g2)
             | Inr (decision, pe) \<Rightarrow>
                 let g3 = g2\<lparr> pressureEngine := pe \<rparr>;
                     (client3, g4) =
                       (if shouldInterrupt decision
                        then
                          let c = client2\<lparr> wordsSinceLastInterrupt := 0,
                                         lastAiChallenge := Some (text_d decision),
                                         aiInterventions := aiInterventions client2 @
                                           [\<lparr> timestamp_i = elapsed, text_i = text_d decision,
                                              type_i = interruptionType decision,
                                              level_i = pressureLevel decision \<rparr>] \<rparr>
                          in if waitBeforeMs decision > 0
                             then (c, g3\<lparr> timeouts := timeouts g3 @
                                           [\<lparr> to_due = now + waitBeforeMs decision,
                                              to_client = socket_id c,
                                              to_decision = decision \<rparr>] \<rparr>)
                             else (c, emit (ToClient (socket_id c) (AiInterrupt decision)) g3)
                        else (client2, g3))
                 in (client3\<lparr> previousMetrics := Some metrics \<rparr>, g4)))"

definition intervalCallback :: "nat \<Rightarrow> SimSocket \<Rightarrow> Gateway \<Rightarrow> int \<Rightarrow> SimSocket \<times> Gateway" where
  \<comment> \<open>One run of the callback of the interval with this handle, for the socket it closes over.
      A cleared interval does not run, and a live one not before it is due.\<close>
  "intervalCallback interval client g now =
     (case intervals g interval of
        None \<Rightarrow> (client, g)
      | Some cd \<Rightarrow>
          if now < cd_due cd then (client, g)
          else
            let remaining = cd_remaining cd - 1;
                sid = cd_sessionId cd;
                g1 = g\<lparr> intervals := (intervals g)(interval \<mapsto>
                          cd\<lparr> cd_remaining := remaining, cd_due := cd_due cd + 1000 \<rparr>) \<rparr>;
                g2 = (if js_rem remaining 5 = 0
                      then emit (ToRoom (room_of sid)
                                   (Tick remaining (cd_durationSec cd - remaining))) g1
                      else g1);
                g3 = (if remaining = cd_durationSec cd div 2
                      then emit (ToClient (socket_id client) (AiSpeak TIME_WARNING 3)) g2
                      else g2);
                g4 = (if remaining = 60
                      then emit (ToClient (socket_id client) (AiSpeak TIME_WARNING 4)) g3
                      else g3)
            in
              if remaining \<le> 0
              then
                let g5 = g4\<lparr> intervals := (intervals g4)(interval := None),
                              timers := (timers g4)(sid := None) \<rparr>;
                    g6 = emit (ToClient (socket_id client) (AiSpeak TIME_UP 5)) g5
                in handleEnd (Some ''TIMEOUT'') client g6 now
              else (client, g4))"

definition runTimeouts :: "Gateway \<Rightarrow> int \<Rightarrow> Gateway" where
  \<comment> \<open>The one-shots due at this time run, the earliest first, and are gone.\<close>
  "runTimeouts g now =
     (let due = sort_key to_due (filter (\<lambda>t. to_due t \<le> now) (timeouts g));
          g1 = g\<lparr> timeouts := filter (\<lambda>t. \<not> to_due t \<le> now) (timeouts g) \<rparr>
      in foldl (\<lambda>ga t. emit (ToClient (to_client t) (AiInterrupt (to_decision t))) ga) g1 due)"

subsection \<open>One connection and its events\<close>

datatype event =
    Start SimulationConfig string        \<comment> \<open>\<open>sim:start\<close>, with the id the store gives\<close>
  | Frame VoiceFrame RandomSource        \<comment> \<open>\<open>sim:voice_frame\<close>, with the random draws\<close>
  | End "string option"                  \<comment> \<open>\<open>sim:end\<close>, with its reason\<close>
  | Disconnect
  | IntervalFires nat                    \<comment> \<open>the timer of this handle runs its callback\<close>
  | TimeoutsFire                         \<comment> \<open>the due one-shots run\<close>

fun step :: "SimSocket \<times> Gateway \<Rightarrow> int \<times> event \<Rightarrow> SimSocket \<times> Gateway" where
  "step (c, g) (now, Start config newId) = handleStart config c g newId now"
| "step (c, g) (now, Frame frame rnd) = handleVoiceFrame frame c g now rnd"
| "step (c, g) (now, End reason) = handleEnd reason c g now"
| "step (c, g) (now, Disconnect) = (c, handleDisconnect c g)"
| "step (c, g) (now, IntervalFires interval) = intervalCallback interval c g now"
| "step (c, g) (now, TimeoutsFire) = (c, runTimeouts g now)"

definition run :: "SimSocket \<times> Gateway \<Rightarrow> (int \<times> event) list \<Rightarrow> SimSocket \<times> Gateway" where
  "run = foldl step"

definition initialGateway :: Gateway where
  "initialGateway =
     \<lparr> intervals = Map.empty, nextHandle = 0, timeouts = [], timers = Map.empty,
       voiceAnalysis = \<lparr> sessionFrames = Map.empty, baselines = Map.empty \<rparr>,
       pressureEngine = Map.empty, prisma = [], emitted = [] \<rparr>"

subsection \<open>Reading the logs\<close>

definition is_update :: "string \<Rightarrow> db_write \<Rightarrow> bool" where
  "is_update sid w = (case w of SessionUpdated i u \<Rightarrow> i = sid | _ \<Rightarrow> False)"

definition is_ended :: "string \<Rightarrow> emission \<Rightarrow> bool" where
  "is_ended sid e = (case e of ToClient c (Ended p) \<Rightarrow> sessionId_p p = sid | _ \<Rightarrow> False)"

definition is_tick :: "string \<Rightarrow> emission \<Rightarrow> bool" where
  "is_tick sid e = (case e of ToRoom r (Tick a b) \<Rightarrow> r = room_of sid | _ \<Rightarrow> False)"

definition updates_of :: "string \<Rightarrow> Gateway \<Rightarrow> db_write list" where
  "updates_of sid g = filter (is_update sid) (prisma g)"

definition ended_of :: "string \<Rightarrow> Gateway \<Rightarrow> emission list" where
  "ended_of sid g = filter (is_ended sid) (emitted g)"

definition ticks_of :: "string \<Rightarrow> Gateway \<Rightarrow> emission list" where
  "ticks_of sid g = filter (is_tick sid) (emitted g)"

fun stored_status :: "db_write list \<Rightarrow> string \<Rightarrow> SessionStatus option" where
  \<comment> \<open>The status the store holds for a session after these writes.\<close>
  "stored_status [] sid = None"
| "stored_status (SessionCreated i c # ws) sid =
     (case stored_status ws sid of
        Some s \<Rightarrow> Some s
      | None \<Rightarrow> if i = sid then Some (status_c c) else None)"
| "stored_status (SessionUpdated i u # ws) sid =
     (case stored_status ws sid of
        Some s \<Rightarrow> Some s
      | None \<Rightarrow> if i = sid then Some (status_u u) else None)"
| "stored_status (AgentLogCreated a # ws) sid = stored_status ws sid"

section \<open>The documented behaviour, and sample inputs\<close>

definition documented_priority ::
  "VoiceMetricsSnapshot \<Rightarrow> VoiceMetricsSnapshot \<Rightarrow> (StepBackType \<times> Severity) option" where
  \<comment> \<open>The step-back rules as the specification lists them, first match first.\<close>
  "documented_priority current previous =
     (let confidence_drop = confidenceScore previous - confidenceScore current in
      if confidence_drop > 25
        then Some (CONFIDENCE_COLLAPSE, if confidence_drop > 40 then SEVERE else MODERATE)
      else if ideaAbandonment current
        then Some (IDEA_ABANDON, MODERATE)
      else if voiceTremor current > 70
        then Some (VOICE_TREMOR, if voiceTremor current > 85 then SEVERE else MODERATE)
      else if volumeDrop current > 60
        then Some (VOLUME_DROP, if volumeDrop current > 80 then SEVERE else MILD)
      else if toneDrop current > 60
        then Some (TONE_DROP, MILD)
      else None)"

definition sample_snapshot :: "int \<Rightarrow> int \<Rightarrow> VoiceMetricsSnapshot" where
  \<comment> \<open>A snapshot with this confidence and volume drop, and calm otherwise.\<close>
  "sample_snapshot conf vol =
     \<lparr> timestamp_m = 5000, voiceTremor = 0, speechHesitation = 0, toneDrop = 0,
       volumeDrop = vol, ideaAbandonment = False, confidenceScore = conf,
       rawValues = \<lparr> avgPitch_r = 180, avgVolume_r = 1 / 2, avgSpeechRate_r = 120,
                     totalPauses = 0, totalFillers = 0 \<rparr> \<rparr>"

definition emptyVoice :: VoiceAnalysisService where
  "emptyVoice = \<lparr> sessionFrames = Map.empty, baselines = Map.empty \<rparr>"

datatype pressure_op =
    InitSession string
  | EndSession string
  | EvaluateInterruption string VoiceMetricsSnapshot int int RandomSource
  | RecordStepBack string

fun apply_op :: "PressureEngine \<Rightarrow> pressure_op \<Rightarrow> PressureEngine" where
  \<comment> \<open>One call of the engine's public methods; a call that throws leaves the states as they were.\<close>
  "apply_op states (InitSession sid) = pressure_initSession states sid"
| "apply_op states (EndSession sid) = snd (pressure_endSession states sid)"
| "apply_op states (EvaluateInterruption sid metrics elapsedMs words rnd) =
     (case evaluateInterruption states sid metrics elapsedMs words rnd of
        Inl err \<Rightarrow> states
      | Inr (decision, states') \<Rightarrow> states')"
| "apply_op states (RecordStepBack sid) = recordStepBack states sid"

definition sample_state :: PressureState where
  "sample_state =
     \<lparr> currentLevel = 3, interruptionCount = 6, challengeCount = 6,
       lastInterruptionAt = 50000, candidateStepBacks = 2, escalationTriggers = [] \<rparr>"

definition sample_draws :: RandomSource where
  "sample_draws =
     \<lparr> r_fire = Draw 0, r_category = Draw (1 / 2), r_template = Draw (1 / 2),
       r_immediate = Draw (1 / 2), r_delay = Draw (1 / 2) \<rparr>"

definition levels_ok :: "PressureEngine \<Rightarrow> bool" where
  \<comment> \<open>The invariant: every session's level is between 1 and 5.\<close>
  "levels_ok states =
     (\<forall>sid st. states sid = Some st \<longrightarrow> 1 \<le> currentLevel st \<and> currentLevel st \<le> 5)"

definition window_of :: "VoiceAnalysisService \<Rightarrow> string \<Rightarrow> VoiceFrame list" where
  \<comment> \<open>The frames the service holds for a session.\<close>
  "window_of vs sid = (case sessionFrames vs sid of None \<Rightarrow> [] | Some fs \<Rightarrow> fs)"

definition mean :: "real list \<Rightarrow> real" where
  \<comment> \<open>The mean of the numbers as reals, 0 for none.\<close>
  "mean xs = sum_list xs / real (length xs)"

definition clamp :: "real \<Rightarrow> real \<Rightarrow> real \<Rightarrow> real" where
  "clamp lo hi x = max lo (min hi x)"

definition percentage_decline :: "real \<Rightarrow> real \<Rightarrow> real" where
  "percentage_decline base current = (base - current) / base * 100"

definition documented_confidence :: "Baseline option \<Rightarrow> VoiceFrame list \<Rightarrow> real" where
  \<comment> \<open>The composite confidence as the specification computes it, in real numbers, from
      the session's baseline and its window of frames.\<close>
  "documented_confidence baseline window =
     (let last10 = slice_last 10 window;
          tremor = min 100 (mean (map pitchVariance last10) * 5);
          fillers = sum_list (map fillerWordCount last10);
          longPauseCount = int (length (filter (\<lambda>f. pauseDurationMs f > 1500) last10));
          hesitation = min 100 (min 50 (fillers * 10) + min 50 (longPauseCount * 15));
          tone_drop =
            (case baseline of
               None \<Rightarrow> 0
             | Some b \<Rightarrow>
                 clamp 0 100 (3 * percentage_decline (avgPitch b) (mean (map pitchHz last10))));
          volume_drop =
            (case baseline of
               None \<Rightarrow> 0
             | Some b \<Rightarrow>
                 clamp 0 100 (3 * percentage_decline (avgVolume b) (mean (map rmsVolume last10))));
          abandonment =
            (last10 \<noteq> [] \<and> pauseDurationMs (last last10) > 3000 \<and> wordCount (last last10) < 3
               \<and> volume_drop > 40)
      in clamp 0 100
           (100 - 2 / 10 * tremor - 25 / 100 * real_of_int hesitation - 15 / 100 * tone_drop
              - 2 / 10 * volume_drop - (if abandonment then 20 else 0)))"



definition sample_frame :: "int \<Rightarrow> int \<Rightarrow> real \<Rightarrow> VoiceFrame" where
  \<comment> \<open>A frame with this timestamp, filler count and volume; steady otherwise.\<close>
  "sample_frame t fillers vol =
     \<lparr> timestamp = t, rmsVolume = vol, pitchHz = 180, pitchVariance = 0, speechRate = 120,
       pauseDurationMs = 200, fillerWordCount = fillers, wordCount = 40,
       transcript = ''we cross first'' \<rparr>"


definition tie_frame :: "real \<Rightarrow> real \<Rightarrow> int \<Rightarrow> real \<Rightarrow> VoiceFrame" where
  \<comment> \<open>A frame at 41 s with this volume, pitch, filler count and pitch variance.\<close>
  "tie_frame vol pitch fillers var =
     \<lparr> timestamp = 41000, rmsVolume = vol, pitchHz = pitch, pitchVariance = var,
       speechRate = 120, pauseDurationMs = 200, fillerWordCount = fillers, wordCount = 40,
       transcript = ''we cross first'' \<rparr>"

definition tieVoice :: VoiceAnalysisService where
  \<comment> \<open>A session with two frames and a baseline; all its numbers are doubles.\<close>
  "tieVoice =
     \<lparr> sessionFrames =
         [''s1'' \<mapsto> [tie_frame (15 / 32) 154 1 (1 / 4), tie_frame (1 / 16) 179 0 (1 / 4)]],
       baselines = [''s1'' \<mapsto> \<lparr> avgPitch = 180, avgVolume = 1 / 4, avgRate = 120 \<rparr>] \<rparr>"

definition event_name :: "emission \<Rightarrow> string" where
  \<comment> \<open>The name an emission goes out under.\<close>
  "event_name e =
     (case (case e of ToClient c ev \<Rightarrow> ev | ToRoom r ev \<Rightarrow> ev) of
        Connected \<Rightarrow> ''connected''
      | AiSpeak ty lv \<Rightarrow> ''sim:ai_speak''
      | Started sid ty d \<Rightarrow> ''sim:started''
      | Metrics m \<Rightarrow> ''sim:metrics''
      | StepBack sb \<Rightarrow> ''sim:step_back''
      | AiInterrupt d \<Rightarrow> ''sim:ai_interrupt''
      | Ended p \<Rightarrow> ''sim:ended''
      | Tick r el \<Rightarrow> ''sim:tick'')"

definition end_reasons :: "string \<Rightarrow> Gateway \<Rightarrow> string list" where
  \<comment> \<open>The end reasons of the updates the store received for a session, in order.\<close>
  "end_reasons sid g =
     concat (map (\<lambda>w. case w of SessionUpdated i u \<Rightarrow> if i = sid then [endReason u] else []
                          | _ \<Rightarrow> [])
                 (prisma g))"

definition countdown_events :: "int \<Rightarrow> nat \<Rightarrow> nat \<Rightarrow> (int \<times> event) list" where
  \<comment> \<open>The first \<open>n\<close> runs of an interval that was set at time \<open>t0\<close>, one a second.\<close>
  "countdown_events t0 interval n =
     map (\<lambda>k. (t0 + 1000 * int k, IntervalFires interval)) [1..<Suc n]"

definition sample_client :: SimSocket where
  \<comment> \<open>The socket \<open>c1\<close> of user \<open>u1\<close>, as \<open>handleConnection\<close> leaves it.\<close>
  "sample_client =
     \<lparr> socket_id = ''c1'', userId = ''u1'', rooms = {}, sessionId = None,
       sessionStartMs = None, wordsSinceLastInterrupt = 0, previousMetrics = None,
       lastAiChallenge = None, stepBackEvents = [], fullTranscript = [],
       aiInterventions = [] \<rparr>"

definition sample_config :: "int \<Rightarrow> SimulationConfig" where
  "sample_config d =
     \<lparr> taskType = PGT, durationSec = d, groupSize = 8, scenario = ''river crossing'',
       difficulty = STANDARD \<rparr>"

definition countdown_emissions :: "SimSocket \<Rightarrow> Countdown \<Rightarrow> emission list" where
  \<comment> \<open>What one run of the interval callback emits before it tests for the end.\<close>
  "countdown_emissions c cd =
     (if js_rem (cd_remaining cd - 1) 5 = 0
      then [ToRoom (room_of (cd_sessionId cd))
              (Tick (cd_remaining cd - 1) (cd_durationSec cd - (cd_remaining cd - 1)))]
      else [])
     @ (if cd_remaining cd - 1 = cd_durationSec cd div 2
        then [ToClient (socket_id c) (AiSpeak TIME_WARNING 3)] else [])
     @ (if cd_remaining cd - 1 = 60
        then [ToClient (socket_id c) (AiSpeak TIME_WARNING 4)] else [])"

definition countdown_running :: "string \<Rightarrow> int \<Rightarrow> nat \<Rightarrow> SimSocket \<times> Gateway \<Rightarrow> bool" where
  \<comment> \<open>A ten-second countdown of interval 0, set at \<open>t0\<close>, after \<open>k\<close> of its runs.\<close>
  "countdown_running sid t0 k s =
     (sessionId (fst s) = Some sid
      \<and> intervals (snd s) 0 = Some \<lparr> cd_sessionId = sid, cd_durationSec = 10,
                                     cd_remaining = 10 - int k, cd_due = t0 + 1000 * (int k + 1) \<rparr>
      \<and> length (ticks_of sid (snd s)) = (if k < 5 then 0 else 1)
      \<and> ended_of sid (snd s) = []
      \<and> end_reasons sid (snd s) = [])"

definition countdown_over :: "string \<Rightarrow> SimSocket \<times> Gateway \<Rightarrow> bool" where
  \<comment> \<open>The ten-second countdown of interval 0 after its last run.\<close>
  "countdown_over sid s =
     (sessionId (fst s) = Some sid
      \<and> intervals (snd s) 0 = None
      \<and> length (ticks_of sid (snd s)) = 2
      \<and> length (ended_of sid (snd s)) = 1
      \<and> end_reasons sid (snd s) = [''TIMEOUT''])"


section \<open>The rounding to doubles\<close>

text \<open>
  \<open>fl64\<close> is the rounding of IEEE-754 binary64: the result is a multiple of the spacing
  \<open>ulp64\<close> at most half a spacing away, a number of normal size has a significand of 53
  bits, and every double is a fixed point.
\<close>

lemma pow2_pos: "0 < pow2 e"
  by (simp add: pow2_def)

lemma pow2_step: "pow2 (e + 1) = 2 * pow2 e"
proof (cases "0 \<le> e")
  case True
  then have "nat (e + 1) = Suc (nat e)" by simp
  then show ?thesis using True by (simp add: pow2_def)
next
  case False
  show ?thesis
  proof (cases "e = - 1")
    case True
    then show ?thesis by (simp add: pow2_def)
  next
    case False
    with \<open>\<not> 0 \<le> e\<close> have neg: "e + 1 < 0" by simp
    then have "nat (- e) = Suc (nat (- (e + 1)))" by simp
    then show ?thesis using neg by (simp add: pow2_def)
  qed
qed

lemma log2_up_bounds:
  "1 \<le> m \<Longrightarrow> 0 \<le> log2_up m \<and> pow2 (log2_up m) \<le> m \<and> m < pow2 (log2_up m + 1)"
proof (induction m rule: log2_up.induct)
  case (1 m)
  show ?case
  proof (cases "m < 2")
    case True
    then show ?thesis using "1.prems" by (simp add: log2_up.simps [of m] pow2_def)
  next
    case False
    then have "1 \<le> m / 2" by simp
    from "1.IH" [OF False this]
    have ih: "0 \<le> log2_up (m / 2)" "pow2 (log2_up (m / 2)) \<le> m / 2"
      "m / 2 < pow2 (log2_up (m / 2) + 1)" by simp_all
    have e: "log2_up m = log2_up (m / 2) + 1"
      using False by (simp add: log2_up.simps [of m])
    show ?thesis
      unfolding e using ih pow2_step [of "log2_up (m / 2)"] pow2_step [of "log2_up (m / 2) + 1"]
      by simp
  qed
qed

lemma log2_down_bounds:
  "0 < m \<Longrightarrow> m < 1 \<Longrightarrow>
     log2_down m < 0 \<and> pow2 (log2_down m) \<le> m \<and> m < pow2 (log2_down m + 1)"
proof (induction m rule: log2_down.induct)
  case (1 m)
  have rec: "log2_down m = log2_down (2 * m) - 1"
    using "1.prems" by (simp add: log2_down.simps [of m])
  have guard: "\<not> (m \<le> 0 \<or> 1 \<le> m)" using "1.prems" by simp
  show ?case
  proof (cases "1 \<le> 2 * m")
    case True
    then have "log2_down (2 * m) = 0" by (simp add: log2_down.simps [of "2 * m"])
    then have "log2_down m = - 1" using rec by simp
    then show ?thesis using True "1.prems" by (simp add: pow2_def)
  next
    case False
    then have "0 < 2 * m" "2 * m < 1" using "1.prems" by simp_all
    from "1.IH" [OF guard this]
    have ih: "log2_down (2 * m) < 0" "pow2 (log2_down (2 * m)) \<le> 2 * m"
      "2 * m < pow2 (log2_down (2 * m) + 1)" by simp_all
    have s1: "pow2 (log2_down (2 * m)) = 2 * pow2 (log2_down (2 * m) - 1)"
      using pow2_step [of "log2_down (2 * m) - 1"] by simp
    have s2: "pow2 (log2_down (2 * m) + 1) = 2 * pow2 (log2_down (2 * m))"
      by (rule pow2_step)
    show ?thesis
      unfolding rec using ih s1 s2 by simp
  qed
qed

lemma round_half_even_error: "\<bar>real_of_int (round_half_even y) - y\<bar> \<le> 1 / 2"
proof -
  have "real_of_int \<lfloor>y\<rfloor> \<le> y" "y < real_of_int \<lfloor>y\<rfloor> + 1" by linarith+
  then show ?thesis unfolding round_half_even_def by auto
qed

lemma ulp64_pos: "0 < ulp64 x"
  by (simp add: ulp64_def pow2_pos)

lemma fl64_error: "\<bar>fl64 x - x\<bar> \<le> ulp64 x / 2"
proof (cases "x = 0")
  case True
  then show ?thesis using ulp64_pos [of x] by (simp add: fl64_def)
next
  case False
  let ?u = "ulp64 x"
  let ?n = "real_of_int (round_half_even (x / ?u))"
  have u: "0 < ?u" by (rule ulp64_pos)
  have "\<bar>?n * ?u - x\<bar> = \<bar>?n - x / ?u\<bar> * ?u"
  proof -
    have "?n * ?u - x = (?n - x / ?u) * ?u" using u by (simp add: field_simps)
    then show ?thesis using u by (simp add: abs_mult)
  qed
  also have "\<dots> \<le> (1 / 2) * ?u"
    using round_half_even_error [of "x / ?u"] u by (intro mult_right_mono) simp_all
  finally show ?thesis using False by (simp add: fl64_def)
qed

lemma pow2_add: "pow2 (e + int n) = pow2 e * 2 ^ n"
proof (induction n)
  case 0
  show ?case by simp
next
  case (Suc n)
  have "e + int (Suc n) = (e + int n) + 1" by simp
  then have "pow2 (e + int (Suc n)) = pow2 ((e + int n) + 1)" by (simp only:)
  also have "\<dots> = 2 * pow2 (e + int n)" by (rule pow2_step)
  finally show ?case using Suc by simp
qed

lemma pow2_mono: "a \<le> b \<Longrightarrow> pow2 a \<le> pow2 b"
proof -
  assume "a \<le> b"
  then obtain n where b: "b = a + int n" by (metis zle_iff_zadd)
  have "(1::real) \<le> 2 ^ n" by simp
  then have "pow2 a * 1 \<le> pow2 a * 2 ^ n"
    using pow2_pos [of a] by (intro mult_left_mono) simp_all
  then show ?thesis unfolding b pow2_add by simp
qed

lemma exponent_bounds:
  assumes "0 < m"
  shows "pow2 (if 1 \<le> m then log2_up m else log2_down m) \<le> m
       \<and> m < pow2 ((if 1 \<le> m then log2_up m else log2_down m) + 1)"
proof (cases "1 \<le> m")
  case True
  then show ?thesis using log2_up_bounds [OF True] by simp
next
  case False
  then have "m < 1" by simp
  from log2_down_bounds [OF assms this] False show ?thesis by simp
qed

lemma ulp64_normal:
  assumes "pow2 (- 1022) \<le> \<bar>x\<bar>"
  shows "ulp64 x * 2 ^ 52 \<le> \<bar>x\<bar> \<and> \<bar>x\<bar> < ulp64 x * 2 ^ 53"
proof -
  define m where "m = \<bar>x\<bar>"
  define e where "e = (if 1 \<le> m then log2_up m else log2_down m)"
  have pos: "0 < m" using assms pow2_pos [of "- 1022"] unfolding m_def by linarith
  from exponent_bounds [OF pos]
  have lo: "pow2 e \<le> m" and hi: "m < pow2 (e + 1)" unfolding e_def by simp_all
  have "- 1022 \<le> e"
  proof (rule ccontr)
    assume "\<not> - 1022 \<le> e"
    then have "e + 1 \<le> - 1022" by simp
    then have "pow2 (e + 1) \<le> pow2 (- 1022)" by (rule pow2_mono)
    then show False using hi assms unfolding m_def by linarith
  qed
  then have u: "ulp64 x = pow2 (e - 52)"
    unfolding ulp64_def e_def m_def by (simp add: max_def)
  have "e - 52 + int 52 = e" "e - 52 + int 53 = e + 1" by simp_all
  then have a: "pow2 (e - 52) * 2 ^ 52 = pow2 e" and b: "pow2 (e - 52) * 2 ^ 53 = pow2 (e + 1)"
    using pow2_add [of "e - 52" 52] pow2_add [of "e - 52" 53] by (simp_all only:)
  show ?thesis unfolding u a b using lo hi unfolding m_def by simp
qed

lemma fl64_relative_error:
  assumes "pow2 (- 1022) \<le> \<bar>x\<bar>"
  shows "\<bar>fl64 x - x\<bar> \<le> \<bar>x\<bar> / 2 ^ 53"
proof -
  have "ulp64 x * 2 ^ 52 \<le> \<bar>x\<bar>" using ulp64_normal [OF assms] by simp
  then have "ulp64 x / 2 \<le> \<bar>x\<bar> / 2 ^ 53" by (simp add: field_simps)
  then show ?thesis using fl64_error [of x] by linarith
qed

lemma round_half_even_int: "round_half_even (real_of_int z) = z"
  by (simp add: round_half_even_def)

lemma fl64_double:
  assumes n: "\<bar>n\<bar> < 2 ^ 53" and e: "- 1074 \<le> e"
  shows "fl64 (real_of_int n * pow2 e) = real_of_int n * pow2 e"
proof (cases "n = 0")
  case True
  then show ?thesis by (simp add: fl64_def)
next
  case False
  define x where "x = real_of_int n * pow2 e"
  define m where "m = \<bar>x\<bar>"
  define E where "E = (if 1 \<le> m then log2_up m else log2_down m)"
  define k where "k = max E (- 1022) - 52"
  have pe: "0 < pow2 e" by (rule pow2_pos)
  have x0: "x \<noteq> 0" using False pe by (simp add: x_def)
  then have pos: "0 < m" by (simp add: m_def)
  from exponent_bounds [OF pos] have lo: "pow2 E \<le> m" unfolding E_def by simp
  have "real_of_int \<bar>n\<bar> < 2 ^ 53" using n by (metis of_int_less_numeral_power_cancel_iff)
  then have "m < 2 ^ 53 * pow2 e"
    unfolding m_def x_def using pe by (simp add: abs_mult)
  also have "\<dots> = pow2 (e + int 53)" using pow2_add [of e 53] by simp
  finally have hi: "m < pow2 (e + 53)" by simp
  have "E < e + 53"
  proof (rule ccontr)
    assume "\<not> E < e + 53"
    then have "e + 53 \<le> E" by simp
    then have "pow2 (e + 53) \<le> pow2 E" by (rule pow2_mono)
    then show False using lo hi by linarith
  qed
  then have ke: "k \<le> e" using e by (simp add: k_def)
  have u: "ulp64 x = pow2 k" by (simp add: ulp64_def k_def E_def m_def)
  obtain d where d: "e = k + int d" using ke by (metis zle_iff_zadd)
  have pk: "0 < pow2 k" by (rule pow2_pos)
  have "x / pow2 k = real_of_int n * 2 ^ d"
    unfolding x_def d pow2_add using pk by simp
  also have "\<dots> = real_of_int (n * 2 ^ d)" by simp
  finally have q: "x / pow2 k = real_of_int (n * 2 ^ d)" .
  have "round_half_even (x / ulp64 x) = n * 2 ^ d"
    unfolding u q by (rule round_half_even_int)
  then have "fl64 x = real_of_int (n * 2 ^ d) * pow2 k"
    using x0 unfolding fl64_def u by (simp only: if_False)
  also have "\<dots> = x" unfolding x_def d pow2_add by simp
  finally show ?thesis unfolding x_def .
qed

section \<open>Step-back detection\<close>

lemma detectStepBack_kind:
  "map_option (\<lambda>e. (event_type e, severity e)) (detectStepBack vs sid cur (Some prev) ch)
     = documented_priority cur prev"
  by (simp add: detectStepBack_def documented_priority_def Let_def)

lemma detectStepBack_no_previous: "detectStepBack vs sid cur None ch = None"
  by (simp add: detectStepBack_def)

lemma documented_priority_range:
  "documented_priority cur prev = Some (t, s) \<Longrightarrow>
     (t, s) \<in> {(CONFIDENCE_COLLAPSE, SEVERE), (CONFIDENCE_COLLAPSE, MODERATE),
               (IDEA_ABANDON, MODERATE),
               (VOICE_TREMOR, SEVERE), (VOICE_TREMOR, MODERATE),
               (VOLUME_DROP, SEVERE), (VOLUME_DROP, MILD),
               (TONE_DROP, MILD)}"
  unfolding documented_priority_def Let_def
  by (simp split: if_splits)

text \<open>
  Claim C3. With a previous snapshot, \<open>detectStepBack\<close> returns at most one event, and its
  kind and severity are those of the first rule that matches, in the documented order:
  confidence drop over 25, the abandonment flag, tremor over 70, volume drop over 60, tone
  drop over 60, else no event. When the confidence drop is over 25 and the volume drop over
  60, the event is a confidence collapse.
\<close>

theorem detectStepBack_priority:
  "map_option (\<lambda>e. (event_type e, severity e)) (detectStepBack vs sid cur (Some prev) ch)
     = documented_priority cur prev
   \<and> (confidenceScore prev - confidenceScore cur > 25 \<and> volumeDrop cur > 60
        \<longrightarrow> (\<exists>e. detectStepBack vs sid cur (Some prev) ch = Some e
                 \<and> event_type e = CONFIDENCE_COLLAPSE))"
proof
  show "map_option (\<lambda>e. (event_type e, severity e)) (detectStepBack vs sid cur (Some prev) ch)
          = documented_priority cur prev"
    by (rule detectStepBack_kind)
next
  show "confidenceScore prev - confidenceScore cur > 25 \<and> volumeDrop cur > 60
        \<longrightarrow> (\<exists>e. detectStepBack vs sid cur (Some prev) ch = Some e
                 \<and> event_type e = CONFIDENCE_COLLAPSE)"
    by (simp add: detectStepBack_def Let_def)
qed

theorem detectStepBack_priority_witness:
  "confidenceScore (sample_snapshot 90 0) - confidenceScore (sample_snapshot 60 70) > 25
   \<and> volumeDrop (sample_snapshot 60 70) > 60
   \<and> map_option (\<lambda>e. (event_type e, severity e))
        (detectStepBack emptyVoice ''s1'' (sample_snapshot 60 70) (Some (sample_snapshot 90 0)) '''')
      = Some (CONFIDENCE_COLLAPSE, MODERATE)"
  using detectStepBack_priority [of emptyVoice "''s1''" "sample_snapshot 60 70" "sample_snapshot 90 0" "''''"]
  by (simp add: sample_snapshot_def documented_priority_def)

text \<open>
  Claim C10. An event of \<open>detectStepBack\<close> is never of kind \<open>HESITATION\<close>, a volume drop
  is never moderate, a tone drop is always mild, and only the eight pairs of kind and
  severity of the five rules occur.
\<close>

theorem detectStepBack_reachable_kinds:
  assumes "detectStepBack vs sid cur prev ch = Some e"
  shows "event_type e \<noteq> HESITATION
     \<and> (event_type e = VOLUME_DROP \<longrightarrow> severity e \<noteq> MODERATE)
     \<and> (event_type e = TONE_DROP \<longrightarrow> severity e = MILD)
     \<and> (event_type e, severity e) \<in>
           {(CONFIDENCE_COLLAPSE, SEVERE), (CONFIDENCE_COLLAPSE, MODERATE),
            (IDEA_ABANDON, MODERATE),
            (VOICE_TREMOR, SEVERE), (VOICE_TREMOR, MODERATE),
            (VOLUME_DROP, SEVERE), (VOLUME_DROP, MILD),
            (TONE_DROP, MILD)}"
proof -
  obtain p where p: "prev = Some p"
    using assms detectStepBack_no_previous by (cases prev) auto
  have "documented_priority cur p = Some (event_type e, severity e)"
    using detectStepBack_kind [of vs sid cur p ch] assms p by simp
  from documented_priority_range [OF this] show ?thesis by auto
qed

theorem detectStepBack_reachable_kinds_witness:
  "detectStepBack emptyVoice ''s1'' (sample_snapshot 80 90) (Some (sample_snapshot 90 0)) '''' \<noteq> None
   \<and> event_type (the (detectStepBack emptyVoice ''s1'' (sample_snapshot 80 90) (Some (sample_snapshot 90 0)) '''')) \<noteq> HESITATION"
proof -
  obtain e where e: "detectStepBack emptyVoice ''s1'' (sample_snapshot 80 90) (Some (sample_snapshot 90 0)) '''' = Some e"
    by (simp add: detectStepBack_def sample_snapshot_def Let_def)
  from detectStepBack_reachable_kinds [OF e] e show ?thesis by simp
qed

section \<open>Pressure engine: level range and monotonicity\<close>

lemma evaluateEscalation_level:
  "currentLevel st \<le> currentLevel (evaluateEscalation st m)
   \<and> (currentLevel st \<le> 5 \<longrightarrow> currentLevel (evaluateEscalation st m) \<le> 5)"
  by (simp add: evaluateEscalation_def Let_def)

lemma evaluateEscalation_counts:
  "interruptionCount (evaluateEscalation st m) = interruptionCount st
   \<and> challengeCount (evaluateEscalation st m) = challengeCount st
   \<and> candidateStepBacks (evaluateEscalation st m) = candidateStepBacks st"
  by (simp add: evaluateEscalation_def Let_def)

lemma evaluateInterruption_other:
  assumes "evaluateInterruption states sid m el w rnd = Inr (d, states')" and "sid' \<noteq> sid"
  shows "states' sid' = states sid'"
  using assms
  by (auto simp add: evaluateInterruption_def Let_def split: option.splits if_splits)

lemma evaluateInterruption_at:
  assumes "evaluateInterruption states sid m el w rnd = Inr (d, states')"
      and "states sid = Some st"
  shows "\<exists>st'. states' sid = Some st'
           \<and> interruptionCount st \<le> interruptionCount st'
           \<and> challengeCount st \<le> challengeCount st'
           \<and> candidateStepBacks st' = candidateStepBacks st
           \<and> currentLevel st \<le> currentLevel st'
           \<and> (currentLevel st \<le> 5 \<longrightarrow> currentLevel st' \<le> 5)"
proof (cases "states' = states")
  case True
  then show ?thesis using assms by simp
next
  case False
  let ?st1 = "st\<lparr> interruptionCount := interruptionCount st + 1,
                   challengeCount := challengeCount st + 1,
                   lastInterruptionAt := el \<rparr>"
  have "states' = states(sid \<mapsto> evaluateEscalation ?st1 m)"
    using assms False
    by (auto simp add: evaluateInterruption_def Let_def split: option.splits if_splits)
  then show ?thesis
    using evaluateEscalation_level [of ?st1 m] evaluateEscalation_counts [of ?st1 m]
    by simp
qed

lemma recordStepBack_other: "sid' \<noteq> sid \<Longrightarrow> recordStepBack states sid sid' = states sid'"
  by (simp add: recordStepBack_def Let_def split: option.splits)

lemma recordStepBack_absent: "states sid = None \<Longrightarrow> recordStepBack states sid = states"
  by (simp add: recordStepBack_def)

lemma recordStepBack_at:
  assumes "states sid = Some st"
  shows "\<exists>st'. recordStepBack states sid sid = Some st'
           \<and> interruptionCount st' = interruptionCount st
           \<and> challengeCount st' = challengeCount st
           \<and> candidateStepBacks st' = candidateStepBacks st + 1
           \<and> (currentLevel st' = currentLevel st
                \<or> (3 \<le> candidateStepBacks st' \<and> 2 < currentLevel st
                     \<and> currentLevel st' = currentLevel st - 1))"
  using assms by (simp add: recordStepBack_def Let_def)

lemma apply_op_levels_ok: "levels_ok states \<Longrightarrow> levels_ok (apply_op states op)"
proof (cases op)
  case (InitSession s)
  assume "levels_ok states"
  then show ?thesis using InitSession
    by (simp add: levels_ok_def pressure_initSession_def)
next
  case (EndSession s)
  assume "levels_ok states"
  then show ?thesis using EndSession
    by (simp add: levels_ok_def pressure_endSession_def)
next
  case (EvaluateInterruption s m el w rnd)
  assume ok: "levels_ok states"
  show ?thesis
  proof (cases "evaluateInterruption states s m el w rnd")
    case (Inl e)
    then show ?thesis using ok EvaluateInterruption by simp
  next
    case (Inr p)
    obtain d states' where p: "p = (d, states')" by (cases p)
    have ev: "evaluateInterruption states s m el w rnd = Inr (d, states')"
      using Inr p by simp
    have "levels_ok states'"
      unfolding levels_ok_def
    proof (intro allI impI)
      fix sid st'
      assume s': "states' sid = Some st'"
      show "1 \<le> currentLevel st' \<and> currentLevel st' \<le> 5"
      proof (cases "sid = s")
        case False
        then have "states sid = Some st'"
          using evaluateInterruption_other [OF ev, of sid] s' by simp
        then show ?thesis using ok by (simp add: levels_ok_def)
      next
        case True
        show ?thesis
        proof (cases "states s")
          case None
          then have "states' = states"
            using ev by (simp add: evaluateInterruption_def)
          then show ?thesis using None s' True by simp
        next
          case (Some st)
          from evaluateInterruption_at [OF ev Some] s' True
          have "currentLevel st \<le> currentLevel st'"
            and "currentLevel st \<le> 5 \<longrightarrow> currentLevel st' \<le> 5"
            by auto
          moreover have "1 \<le> currentLevel st \<and> currentLevel st \<le> 5"
            using ok Some by (simp add: levels_ok_def)
          ultimately show ?thesis by simp
        qed
      qed
    qed
    then show ?thesis using EvaluateInterruption ev by simp
  qed
next
  case (RecordStepBack s)
  assume ok: "levels_ok states"
  have "levels_ok (recordStepBack states s)"
    unfolding levels_ok_def
  proof (intro allI impI)
    fix sid st'
    assume s': "recordStepBack states s sid = Some st'"
    show "1 \<le> currentLevel st' \<and> currentLevel st' \<le> 5"
    proof (cases "sid = s")
      case False
      then show ?thesis using ok s' recordStepBack_other [of sid s states]
        by (simp add: levels_ok_def)
    next
      case True
      show ?thesis
      proof (cases "states s")
        case None
        then show ?thesis using s' True recordStepBack_absent [of states s] by simp
      next
        case (Some st)
        have "1 \<le> currentLevel st \<and> currentLevel st \<le> 5"
          using ok Some by (simp add: levels_ok_def)
        then show ?thesis using recordStepBack_at [of states s st] Some s' True by auto
      qed
    qed
  qed
  then show ?thesis using RecordStepBack by simp
qed

lemma foldl_apply_op_levels_ok: "levels_ok states \<Longrightarrow> levels_ok (foldl apply_op states ops)"
  by (induction ops arbitrary: states) (simp_all add: apply_op_levels_ok)

text \<open>
  Claim C6. After any sequence of \<open>initSession\<close>, \<open>evaluateInterruption\<close>,
  \<open>recordStepBack\<close> and \<open>endSession\<close> calls on the engine, for any sessions and in any
  order, the pressure level of every session the engine holds is between 1 and 5.
\<close>

theorem pressure_level_in_range:
  "foldl apply_op Map.empty ops sid = Some st \<Longrightarrow> 1 \<le> currentLevel st \<and> currentLevel st \<le> 5"
proof -
  assume a: "foldl apply_op Map.empty ops sid = Some st"
  have "levels_ok Map.empty" by (simp add: levels_ok_def)
  then have "levels_ok (foldl apply_op Map.empty ops)" by (rule foldl_apply_op_levels_ok)
  then show ?thesis using a by (simp add: levels_ok_def)
qed


theorem pressure_level_in_range_witness:
  "foldl apply_op Map.empty
     [InitSession ''s1'', EvaluateInterruption ''s1'' (sample_snapshot 90 0) 30000 40 sample_draws,
      RecordStepBack ''s1''] ''s1'' \<noteq> None
   \<and> 1 \<le> currentLevel (the (foldl apply_op Map.empty
     [InitSession ''s1'', EvaluateInterruption ''s1'' (sample_snapshot 90 0) 30000 40 sample_draws,
      RecordStepBack ''s1''] ''s1''))
   \<and> currentLevel (the (foldl apply_op Map.empty
     [InitSession ''s1'', EvaluateInterruption ''s1'' (sample_snapshot 90 0) 30000 40 sample_draws,
      RecordStepBack ''s1''] ''s1'')) \<le> 5"
proof -
  let ?ops = "[InitSession ''s1'', EvaluateInterruption ''s1'' (sample_snapshot 90 0) 30000 40 sample_draws,
      RecordStepBack ''s1'']"
  have "interruptionCount (the (foldl apply_op Map.empty ?ops ''s1'')) = 1
        \<and> foldl apply_op Map.empty ?ops ''s1'' \<noteq> None"
    by (simp add: pressure_initSession_def evaluateInterruption_def recordStepBack_def
          sample_snapshot_def sample_draws_def Draw_inverse INTERRUPTIONS_def random_index_def
          evaluateEscalation_def js_rem_def Let_def)
  then obtain st where st: "foldl apply_op Map.empty ?ops ''s1'' = Some st" by auto
  from pressure_level_in_range [OF st] st show ?thesis by simp
qed

lemma apply_op_session_step:
  assumes "states sid = Some st" and "op \<noteq> InitSession sid" and "op \<noteq> EndSession sid"
  shows "\<exists>st'. apply_op states op sid = Some st'
           \<and> interruptionCount st \<le> interruptionCount st'
           \<and> challengeCount st \<le> challengeCount st'
           \<and> (currentLevel st \<le> currentLevel st'
                \<or> (op = RecordStepBack sid \<and> 3 \<le> candidateStepBacks st'
                     \<and> 2 < currentLevel st \<and> currentLevel st' = currentLevel st - 1))"
proof (cases op)
  case (InitSession s)
  then show ?thesis using assms by (simp add: pressure_initSession_def)
next
  case (EndSession s)
  then show ?thesis using assms by (simp add: pressure_endSession_def)
next
  case (EvaluateInterruption s m el w rnd)
  show ?thesis
  proof (cases "evaluateInterruption states s m el w rnd")
    case (Inl e)
    then show ?thesis using assms EvaluateInterruption by simp
  next
    case (Inr p)
    obtain d states' where ev: "evaluateInterruption states s m el w rnd = Inr (d, states')"
      using Inr by (cases p) simp
    show ?thesis
    proof (cases "sid = s")
      case True
      from evaluateInterruption_at [OF ev] assms(1) True
      show ?thesis using EvaluateInterruption ev by auto
    next
      case False
      from evaluateInterruption_other [OF ev False] assms(1)
      show ?thesis using EvaluateInterruption ev by simp
    qed
  qed
next
  case (RecordStepBack s)
  show ?thesis
  proof (cases "sid = s")
    case True
    from recordStepBack_at [of states sid st] assms(1)
    show ?thesis using RecordStepBack True by auto
  next
    case False
    then show ?thesis using RecordStepBack assms(1) recordStepBack_other [of sid s states] by simp
  qed
qed

lemma foldl_apply_op_session:
  assumes "states sid = Some st"
      and "\<forall>op \<in> set ops. op \<noteq> InitSession sid \<and> op \<noteq> EndSession sid"
  shows "\<exists>st'. foldl apply_op states ops sid = Some st'
           \<and> interruptionCount st \<le> interruptionCount st'
           \<and> challengeCount st \<le> challengeCount st'
           \<and> (2 \<le> currentLevel st \<longrightarrow> 2 \<le> currentLevel st')"
  using assms
proof (induction ops arbitrary: states st)
  case Nil
  then show ?case by simp
next
  case (Cons op ops)
  have "op \<noteq> InitSession sid" and "op \<noteq> EndSession sid" using Cons.prems(2) by auto
  from apply_op_session_step [of states sid st op] Cons.prems(1) this
  obtain st1 where st1: "apply_op states op sid = Some st1"
    and c1: "interruptionCount st \<le> interruptionCount st1"
    and c2: "challengeCount st \<le> challengeCount st1"
    and lv: "2 \<le> currentLevel st \<longrightarrow> 2 \<le> currentLevel st1"
    by auto
  have rest: "\<forall>op \<in> set ops. op \<noteq> InitSession sid \<and> op \<noteq> EndSession sid"
    using Cons.prems(2) by simp
  from Cons.IH [of "apply_op states op" st1] st1 rest
  obtain st' where "foldl apply_op (apply_op states op) ops sid = Some st'"
    and "interruptionCount st1 \<le> interruptionCount st'"
    and "challengeCount st1 \<le> challengeCount st'"
    and "2 \<le> currentLevel st1 \<longrightarrow> 2 \<le> currentLevel st'"
    by auto
  then show ?case using c1 c2 lv by auto
qed

text \<open>
  Claim C7. Within one session (no \<open>initSession\<close> or \<open>endSession\<close> for its id, any calls
  for other ids), after any sequence of engine operations the session is still there, its
  \<open>interruptionCount\<close> and \<open>challengeCount\<close> have not decreased, and a level that was
  above 2 is at least 2. A single operation lowers the level only when it is
  \<open>recordStepBack\<close> for this session with a cumulative step-back count of 3 or more, and
  then by exactly one and not below 2.
\<close>

theorem pressure_monotone:
  assumes "states sid = Some st"
      and "\<forall>op \<in> set ops. op \<noteq> InitSession sid \<and> op \<noteq> EndSession sid"
  shows "(\<exists>st'. foldl apply_op states ops sid = Some st'
            \<and> interruptionCount st \<le> interruptionCount st'
            \<and> challengeCount st \<le> challengeCount st'
            \<and> (2 < currentLevel st \<longrightarrow> 2 \<le> currentLevel st'))
         \<and> (\<forall>op st1. op \<noteq> InitSession sid \<and> apply_op states op sid = Some st1
                 \<and> currentLevel st1 < currentLevel st
               \<longrightarrow> op = RecordStepBack sid \<and> 3 \<le> candidateStepBacks st1
                   \<and> currentLevel st1 = currentLevel st - 1 \<and> 2 \<le> currentLevel st1)"
proof
  from foldl_apply_op_session [of states sid st ops] assms
  show "\<exists>st'. foldl apply_op states ops sid = Some st'
            \<and> interruptionCount st \<le> interruptionCount st'
            \<and> challengeCount st \<le> challengeCount st'
            \<and> (2 < currentLevel st \<longrightarrow> 2 \<le> currentLevel st')"
    by auto
next
  show "\<forall>op st1. op \<noteq> InitSession sid \<and> apply_op states op sid = Some st1
                 \<and> currentLevel st1 < currentLevel st
               \<longrightarrow> op = RecordStepBack sid \<and> 3 \<le> candidateStepBacks st1
                   \<and> currentLevel st1 = currentLevel st - 1 \<and> 2 \<le> currentLevel st1"
  proof (intro allI impI)
    fix op st1
    assume a: "op \<noteq> InitSession sid \<and> apply_op states op sid = Some st1
                 \<and> currentLevel st1 < currentLevel st"
    have ne: "op \<noteq> EndSession sid"
      using a by (auto simp add: pressure_endSession_def)
    from apply_op_session_step [of states sid st op] assms(1) ne a
    show "op = RecordStepBack sid \<and> 3 \<le> candidateStepBacks st1
            \<and> currentLevel st1 = currentLevel st - 1 \<and> 2 \<le> currentLevel st1"
      by auto
  qed
qed

theorem pressure_monotone_witness:
  "[''s1'' \<mapsto> sample_state] ''s1'' = Some sample_state
   \<and> currentLevel (the (foldl apply_op [''s1'' \<mapsto> sample_state]
                         [RecordStepBack ''s1'', InitSession ''s2''] ''s1'')) = 2
   \<and> interruptionCount sample_state
        \<le> interruptionCount (the (foldl apply_op [''s1'' \<mapsto> sample_state]
                         [RecordStepBack ''s1'', InitSession ''s2''] ''s1''))"
proof -
  have h1: "[''s1'' \<mapsto> sample_state] ''s1'' = Some sample_state" by simp
  have h2: "\<forall>op \<in> set [RecordStepBack ''s1'', InitSession ''s2''].
              op \<noteq> InitSession ''s1'' \<and> op \<noteq> EndSession ''s1''" by simp
  have lv: "currentLevel (the (foldl apply_op [''s1'' \<mapsto> sample_state]
                         [RecordStepBack ''s1'', InitSession ''s2''] ''s1'')) = 2"
    by (simp add: recordStepBack_def pressure_initSession_def sample_state_def Let_def)
  from pressure_monotone [of "[''s1'' \<mapsto> sample_state]" "''s1''" sample_state
         "[RecordStepBack ''s1'', InitSession ''s2'']"] h1 h2 lv
  show ?thesis by auto
qed

section \<open>Voice metrics: baseline and confidence\<close>

text \<open>The definitions that evaluate arithmetic in doubles on numerals.\<close>

lemmas ieee_eval = fadd_def fsub_def fmul_def fdiv_def fl64_def ulp64_def round_half_even_def
  pow2_def log2_up.simps log2_down.simps avg_def

lemma processFrame_frames:
  "sessionFrames (snd (processFrame vs sid f now)) sid = Some (window_of vs sid @ [f])"
  unfolding processFrame_def calibrateBaseline_def Let_def
  by (simp add: window_of_def)










lemma tieVoice_frame:
  "processFrame tieVoice ''s1'' f 0
     = (computeMetrics
          \<lparr> sessionFrames = [''s1'' \<mapsto> [tie_frame (15 / 32) 154 1 (1 / 4), tie_frame (1 / 16) 179 0 (1 / 4), f]],
            baselines = [''s1'' \<mapsto> \<lparr> avgPitch = 180, avgVolume = 1 / 4, avgRate = 120 \<rparr>] \<rparr>
          ''s1'' [tie_frame (15 / 32) 154 1 (1 / 4), tie_frame (1 / 16) 179 0 (1 / 4), f] 0,
        \<lparr> sessionFrames = [''s1'' \<mapsto> [tie_frame (15 / 32) 154 1 (1 / 4), tie_frame (1 / 16) 179 0 (1 / 4), f]],
          baselines = [''s1'' \<mapsto> \<lparr> avgPitch = 180, avgVolume = 1 / 4, avgRate = 120 \<rparr>] \<rparr>)"
  unfolding processFrame_def Let_def by (simp add: tieVoice_def)

text \<open>
  Rounding in doubles shows at a tie: for these three frames the composite is 93.5 in real
  numbers and just below it in doubles, and the snapshot carries 93.
\<close>

lemma tie_input_code:
  "confidenceScore (fst (processFrame tieVoice ''s1'' (tie_frame (5 / 16) 164 0 (3 / 4)) 0)) = 93"
  unfolding tieVoice_frame fst_conv computeMetrics_def Let_def
  by (simp only: VoiceMetricsSnapshot.select_convs)
     (simp add: slice_last_def tie_frame_def Math_round_def ieee_eval)

lemma tie_input_reals:
  "documented_confidence (baselines tieVoice ''s1'')
     (window_of tieVoice ''s1'' @ [tie_frame (5 / 16) 164 0 (3 / 4)]) = 935 / 10"
  unfolding documented_confidence_def Let_def
  by (simp add: tieVoice_def window_of_def slice_last_def mean_def tie_frame_def clamp_def
        percentage_decline_def)


section \<open>Gateway: ending, disconnecting, timers\<close>

lemma cleanup_fields:
  "timers (cleanup g sid) = (timers g)(sid := None)"
  "intervals (cleanup g sid) = (case timers g sid of None \<Rightarrow> intervals g | Some h \<Rightarrow> (intervals g)(h := None))"
  "timeouts (cleanup g sid) = timeouts g"
  "voiceAnalysis (cleanup g sid) = voiceAnalysis g"
  "pressureEngine (cleanup g sid) = pressureEngine g"
  "prisma (cleanup g sid) = prisma g"
  "emitted (cleanup g sid) = emitted g"
  "nextHandle (cleanup g sid) = nextHandle g"
  by (auto simp add: cleanup_def split: option.splits)

lemma handleEnd_no_session: "sessionId c = None \<Longrightarrow> handleEnd r c g now = (c, g)"
  by (simp add: handleEnd_def)

lemma handleEnd_fields:
  assumes "sessionId c = Some sid"
  shows "fst (handleEnd r c g now) = c"
    and "timers (snd (handleEnd r c g now)) = (timers g)(sid := None)"
    and "intervals (snd (handleEnd r c g now))
           = (case timers g sid of None \<Rightarrow> intervals g | Some h \<Rightarrow> (intervals g)(h := None))"
    and "timeouts (snd (handleEnd r c g now)) = timeouts g"
    and "nextHandle (snd (handleEnd r c g now)) = nextHandle g"
    and "voiceAnalysis (snd (handleEnd r c g now)) = voice_endSession (voiceAnalysis g) sid"
    and "pressureEngine (snd (handleEnd r c g now)) = (pressureEngine g)(sid := None)"
    and "\<exists>u. prisma (snd (handleEnd r c g now)) = prisma g @ [SessionUpdated sid u]
              \<and> status_u u = COMPLETED
              \<and> endReason u = (case r of None \<Rightarrow> ''MANUAL'' | Some x \<Rightarrow> if x = [] then ''MANUAL'' else x)
              \<and> pressureFinalState u = pressureEngine g sid"
    and "\<exists>p. emitted (snd (handleEnd r c g now)) = emitted g @ [ToClient (socket_id c) (Ended p)]
              \<and> sessionId_p p = sid"
  using assms
  unfolding handleEnd_def Let_def pressure_endSession_def
  by (simp_all add: cleanup_fields emit_def db_send_def)

lemma handleDisconnect_fields:
  assumes "sessionId c = Some sid"
  shows "timers (handleDisconnect c g) = (timers g)(sid := None)"
    and "intervals (handleDisconnect c g)
           = (case timers g sid of None \<Rightarrow> intervals g | Some h \<Rightarrow> (intervals g)(h := None))"
    and "timeouts (handleDisconnect c g) = timeouts g"
    and "nextHandle (handleDisconnect c g) = nextHandle g"
    and "voiceAnalysis (handleDisconnect c g) = voice_endSession (voiceAnalysis g) sid"
    and "pressureEngine (handleDisconnect c g) = (pressureEngine g)(sid := None)"
    and "prisma (handleDisconnect c g) = prisma g"
    and "emitted (handleDisconnect c g) = emitted g"
  using assms
  unfolding handleDisconnect_def Let_def pressure_endSession_def
  by (simp_all add: cleanup_fields)

lemma handleDisconnect_no_session: "sessionId c = None \<Longrightarrow> handleDisconnect c g = g"
  by (simp add: handleDisconnect_def)

lemma updates_of_append: "updates_of sid (g\<lparr> prisma := prisma g @ ws \<rparr>) = updates_of sid g @ filter (is_update sid) ws"
  by (simp add: updates_of_def)

lemma handleEnd_counts:
  assumes "sessionId c = Some sid"
  shows "length (updates_of sid (snd (handleEnd r c g now))) = length (updates_of sid g) + 1"
    and "length (ended_of sid (snd (handleEnd r c g now))) = length (ended_of sid g) + 1"
    and "end_reasons sid (snd (handleEnd r c g now))
           = end_reasons sid g @ [case r of None \<Rightarrow> ''MANUAL'' | Some x \<Rightarrow> if x = [] then ''MANUAL'' else x]"
proof -
  from handleEnd_fields(8) [OF assms, of r g now]
  obtain u where u: "prisma (snd (handleEnd r c g now)) = prisma g @ [SessionUpdated sid u]"
    and r: "endReason u = (case r of None \<Rightarrow> ''MANUAL'' | Some x \<Rightarrow> if x = [] then ''MANUAL'' else x)"
    by blast
  from handleEnd_fields(9) [OF assms, of r g now]
  obtain p where p: "emitted (snd (handleEnd r c g now)) = emitted g @ [ToClient (socket_id c) (Ended p)]"
    and ps: "sessionId_p p = sid" by blast
  show "length (updates_of sid (snd (handleEnd r c g now))) = length (updates_of sid g) + 1"
    by (simp add: updates_of_def u is_update_def)
  show "length (ended_of sid (snd (handleEnd r c g now))) = length (ended_of sid g) + 1"
    by (simp add: ended_of_def p is_ended_def ps)
  show "end_reasons sid (snd (handleEnd r c g now))
           = end_reasons sid g @ [case r of None \<Rightarrow> ''MANUAL'' | Some x \<Rightarrow> if x = [] then ''MANUAL'' else x]"
    by (simp add: end_reasons_def u r)
qed

lemma voice_endSession_twice:
  "voice_endSession (voice_endSession vs sid) sid = voice_endSession vs sid"
  by (simp add: voice_endSession_def)

text \<open>
  Claim C1, as amended. Ending is idempotent for the gateway's memory only. After a first
  \<open>handleEnd\<close> on a socket with a session id, a second one leaves the timers, the
  intervals, the analyzer and the pressure engine as the first left them; but each of the
  two sends one update of the session record to the store and emits one \<open>sim:ended\<close>,
  so the two together make two updates and two emissions.
\<close>

theorem handleEnd_twice:
  assumes "sessionId c = Some sid"
  shows "length (updates_of sid (snd (handleEnd r2 (fst (handleEnd r1 c g t1)) (snd (handleEnd r1 c g t1)) t2)))
           = length (updates_of sid g) + 2
       \<and> length (ended_of sid (snd (handleEnd r2 (fst (handleEnd r1 c g t1)) (snd (handleEnd r1 c g t1)) t2)))
           = length (ended_of sid g) + 2
       \<and> timers (snd (handleEnd r2 (fst (handleEnd r1 c g t1)) (snd (handleEnd r1 c g t1)) t2))
           = timers (snd (handleEnd r1 c g t1))
       \<and> intervals (snd (handleEnd r2 (fst (handleEnd r1 c g t1)) (snd (handleEnd r1 c g t1)) t2))
           = intervals (snd (handleEnd r1 c g t1))
       \<and> voiceAnalysis (snd (handleEnd r2 (fst (handleEnd r1 c g t1)) (snd (handleEnd r1 c g t1)) t2))
           = voiceAnalysis (snd (handleEnd r1 c g t1))
       \<and> pressureEngine (snd (handleEnd r2 (fst (handleEnd r1 c g t1)) (snd (handleEnd r1 c g t1)) t2))
           = pressureEngine (snd (handleEnd r1 c g t1))"
proof -
  let ?g1 = "snd (handleEnd r1 c g t1)"
  have c1: "fst (handleEnd r1 c g t1) = c" by (rule handleEnd_fields(1) [OF assms])
  let ?g2 = "snd (handleEnd r2 c ?g1 t2)"
  have "length (updates_of sid ?g2) = length (updates_of sid g) + 2"
    using handleEnd_counts(1) [OF assms, of r2 ?g1 t2] handleEnd_counts(1) [OF assms, of r1 g t1]
    by simp
  moreover have "length (ended_of sid ?g2) = length (ended_of sid g) + 2"
    using handleEnd_counts(2) [OF assms, of r2 ?g1 t2] handleEnd_counts(2) [OF assms, of r1 g t1]
    by simp
  moreover have "timers ?g2 = timers ?g1"
    by (simp add: handleEnd_fields(2) [OF assms])
  moreover have "intervals ?g2 = intervals ?g1"
    by (simp add: handleEnd_fields(3) [OF assms, of r2 ?g1 t2] handleEnd_fields(2) [OF assms, of r1 g t1])
  moreover have "voiceAnalysis ?g2 = voiceAnalysis ?g1"
    by (simp add: handleEnd_fields(6) [OF assms] voice_endSession_twice)
  moreover have "pressureEngine ?g2 = pressureEngine ?g1"
    by (simp add: handleEnd_fields(7) [OF assms])
  ultimately show ?thesis unfolding c1 by blast
qed

lemma handleStart_fields:
  "sessionId (fst (handleStart config c g newId now)) = Some newId"
  "socket_id (fst (handleStart config c g newId now)) = socket_id c"
  "sessionStartMs (fst (handleStart config c g newId now)) = Some now"
  "stepBackEvents (fst (handleStart config c g newId now)) = stepBackEvents c"
  "\<exists>row. prisma (snd (handleStart config c g newId now)) = prisma g @ [SessionCreated newId row]
           \<and> status_c row = ACTIVE"
  "emitted (snd (handleStart config c g newId now))
     = emitted g @ [ToClient (socket_id c) (AiSpeak OPENING 1),
                    ToClient (socket_id c) (Started newId (taskType config) (durationSec config))]"
  "timers (snd (handleStart config c g newId now)) = (timers g)(newId \<mapsto> nextHandle g)"
  "intervals (snd (handleStart config c g newId now))
     = (intervals g)(nextHandle g \<mapsto>
          \<lparr> cd_sessionId = newId, cd_durationSec = durationSec config,
            cd_remaining = durationSec config, cd_due = now + 1000 \<rparr>)"
  "timeouts (snd (handleStart config c g newId now)) = timeouts g"
  "pressureEngine (snd (handleStart config c g newId now))
     = pressure_initSession (pressureEngine g) newId"
  "voiceAnalysis (snd (handleStart config c g newId now))
     = voice_initSession (voiceAnalysis g) newId"
  unfolding handleStart_def Let_def startCountdown_def
  by (simp_all add: emit_def db_send_def)

lemma intervalCallback_cleared:
  "intervals g h = None \<Longrightarrow> intervalCallback h c g now = (c, g)"
  by (simp add: intervalCallback_def)

lemma intervalCallback_early:
  "intervals g h = Some cd \<Longrightarrow> now < cd_due cd \<Longrightarrow> intervalCallback h c g now = (c, g)"
  by (simp add: intervalCallback_def)

lemma intervalCallback_running:
  assumes "intervals g h = Some cd" and "cd_due cd \<le> now" and "1 < cd_remaining cd"
  shows "fst (intervalCallback h c g now) = c"
    and "intervals (snd (intervalCallback h c g now))
           = (intervals g)(h \<mapsto> cd\<lparr> cd_remaining := cd_remaining cd - 1,
                                       cd_due := cd_due cd + 1000 \<rparr>)"
    and "timers (snd (intervalCallback h c g now)) = timers g"
    and "timeouts (snd (intervalCallback h c g now)) = timeouts g"
    and "prisma (snd (intervalCallback h c g now)) = prisma g"
    and "voiceAnalysis (snd (intervalCallback h c g now)) = voiceAnalysis g"
    and "pressureEngine (snd (intervalCallback h c g now)) = pressureEngine g"
    and "emitted (snd (intervalCallback h c g now)) = emitted g @ countdown_emissions c cd"
  using assms
  unfolding intervalCallback_def Let_def countdown_emissions_def
  by (simp_all add: emit_def)

lemma intervalCallback_last:
  assumes "intervals g h = Some cd" and "cd_due cd \<le> now" and "cd_remaining cd \<le> 1"
  shows "intervalCallback h c g now =
           handleEnd (Some ''TIMEOUT'') c
             (g\<lparr> intervals := (intervals g)(h := None),
                  timers := (timers g)(cd_sessionId cd := None),
                  emitted := emitted g @ countdown_emissions c cd
                               @ [ToClient (socket_id c) (AiSpeak TIME_UP 5)] \<rparr>) now"
  using assms
  unfolding intervalCallback_def Let_def countdown_emissions_def
  by (simp add: emit_def)

lemma js_rem_nonneg: "0 \<le> a \<Longrightarrow> js_rem a 5 = a mod 5"
  by (cases "a = 0") (simp_all add: js_rem_def)

lemma ticks_of_emitted:
  "emitted g' = emitted g @ es \<Longrightarrow>
     length (ticks_of sid g') = length (ticks_of sid g) + length (filter (is_tick sid) es)"
  by (simp add: ticks_of_def)

lemma ended_of_emitted:
  "emitted g' = emitted g @ es \<Longrightarrow> ended_of sid g' = ended_of sid g @ filter (is_ended sid) es"
  by (simp add: ended_of_def)

lemma countdown_emissions_ticks:
  "0 < cd_remaining cd \<Longrightarrow>
     length (filter (is_tick (cd_sessionId cd)) (countdown_emissions c cd))
       = (if (cd_remaining cd - 1) mod 5 = 0 then 1 else 0)"
  by (simp add: countdown_emissions_def is_tick_def js_rem_nonneg)

lemma countdown_emissions_ended: "filter (is_ended sid) (countdown_emissions c cd) = []"
  by (simp add: countdown_emissions_def is_ended_def)

lemma countdown_start:
  "countdown_running sid t0 0
     (handleStart (config\<lparr> durationSec := 10 \<rparr>) c initialGateway sid t0)"
  unfolding countdown_running_def
  by (simp add: handleStart_fields ticks_of_def ended_of_def end_reasons_def is_tick_def is_ended_def)
     (simp add: handleStart_def Let_def startCountdown_def emit_def db_send_def initialGateway_def)

lemma end_reasons_prisma: "prisma g' = prisma g \<Longrightarrow> end_reasons sid g' = end_reasons sid g"
  by (simp add: end_reasons_def)

lemma countdown_step_running:
  assumes "countdown_running sid t0 k s" and "k < 9"
  shows "countdown_running sid t0 (Suc k) (step s (t0 + 1000 * int (Suc k), IntervalFires 0))"
proof -
  obtain c g where s: "s = (c, g)" by (cases s)
  let ?cd = "\<lparr> cd_sessionId = sid, cd_durationSec = 10, cd_remaining = 10 - int k,
               cd_due = t0 + 1000 * (int k + 1) \<rparr>"
  let ?now = "t0 + 1000 * int (Suc k)"
  have sess: "sessionId c = Some sid"
    and iv: "intervals g 0 = Some ?cd"
    and tk: "length (ticks_of sid g) = (if k < 5 then 0 else 1)"
    and en: "ended_of sid g = []"
    and rs: "end_reasons sid g = []"
    using assms(1) s by (simp_all add: countdown_running_def)
  have due: "cd_due ?cd \<le> ?now" by simp
  have rem: "1 < cd_remaining ?cd" using assms(2) by simp
  note R = intervalCallback_running [OF iv due rem, of c]
  let ?g' = "snd (intervalCallback 0 c g ?now)"
  have em: "emitted ?g' = emitted g @ countdown_emissions c ?cd" by (rule R(8))
  have "length (filter (is_tick sid) (countdown_emissions c ?cd))
          = (if (9 - int k) mod 5 = 0 then 1 else 0)"
    using countdown_emissions_ticks [of ?cd c] assms(2) by simp
  moreover have "(9 - int k) mod 5 = 0 \<longleftrightarrow> k = 4"
    using assms(2) by presburger
  ultimately have "length (ticks_of sid ?g') = (if Suc k < 5 then 0 else 1)"
    using ticks_of_emitted [OF em, of sid] tk by auto
  moreover have "ended_of sid ?g' = []"
    using ended_of_emitted [OF em, of sid] en by (simp add: countdown_emissions_ended)
  moreover have "end_reasons sid ?g' = []"
    using end_reasons_prisma [OF R(5), of sid] rs by simp
  moreover have "intervals ?g' 0 = Some \<lparr> cd_sessionId = sid, cd_durationSec = 10,
                     cd_remaining = 10 - int (Suc k), cd_due = t0 + 1000 * (int (Suc k) + 1) \<rparr>"
    using R(2) by simp
  moreover have "sessionId (fst (intervalCallback 0 c g ?now)) = Some sid"
    using R(1) sess by simp
  ultimately have "countdown_running sid t0 (Suc k) (intervalCallback 0 c g ?now)"
    unfolding countdown_running_def by simp
  then show ?thesis
    unfolding s step.simps .
qed

lemma countdown_step_last:
  assumes "countdown_running sid t0 9 s"
  shows "countdown_over sid (step s (t0 + 1000 * int 10, IntervalFires 0))"
proof -
  obtain c g where s: "s = (c, g)" by (cases s)
  let ?cd = "\<lparr> cd_sessionId = sid, cd_durationSec = 10, cd_remaining = 1,
               cd_due = t0 + 10000 \<rparr>"
  let ?now = "t0 + 1000 * int 10"
  have sess: "sessionId c = Some sid"
    and iv: "intervals g 0 = Some ?cd"
    and tk: "length (ticks_of sid g) = 1"
    and en: "ended_of sid g = []"
    and rs: "end_reasons sid g = []"
    using assms(1) s by (simp_all add: countdown_running_def)
  let ?g6 = "g\<lparr> intervals := (intervals g)(0 := None),
                 timers := (timers g)(cd_sessionId ?cd := None),
                 emitted := emitted g @ countdown_emissions c ?cd
                              @ [ToClient (socket_id c) (AiSpeak TIME_UP 5)] \<rparr>"
  have cb: "intervalCallback 0 c g ?now = handleEnd (Some ''TIMEOUT'') c ?g6 ?now"
    by (rule intervalCallback_last [OF iv]) simp_all
  let ?g' = "snd (handleEnd (Some ''TIMEOUT'') c ?g6 ?now)"
  have t6: "length (ticks_of sid ?g6) = 2"
    using tk countdown_emissions_ticks [of ?cd c]
    by (simp add: ticks_of_def is_tick_def)
  have e6: "ended_of sid ?g6 = []"
    using en by (simp add: ended_of_def countdown_emissions_ended is_ended_def)
  have r6: "end_reasons sid ?g6 = []"
    using rs by (simp add: end_reasons_def)
  from handleEnd_fields(9) [OF sess, of "Some ''TIMEOUT''" ?g6 ?now]
  obtain p where p: "emitted ?g' = emitted ?g6 @ [ToClient (socket_id c) (Ended p)]" by blast
  have "length (ticks_of sid ?g') = 2"
    using ticks_of_emitted [OF p, of sid] t6 by (simp add: is_tick_def)
  moreover have "length (ended_of sid ?g') = 1"
    using handleEnd_counts(2) [OF sess, of "Some ''TIMEOUT''" ?g6 ?now] e6 by simp
  moreover have "end_reasons sid ?g' = [''TIMEOUT'']"
    using handleEnd_counts(3) [OF sess, of "Some ''TIMEOUT''" ?g6 ?now] r6 by simp
  moreover have "intervals ?g' 0 = None"
    by (simp add: handleEnd_fields(3) [OF sess] split: option.splits)
  moreover have "sessionId (fst (handleEnd (Some ''TIMEOUT'') c ?g6 ?now)) = Some sid"
    by (simp add: handleEnd_fields(1) [OF sess] sess)
  ultimately have "countdown_over sid (handleEnd (Some ''TIMEOUT'') c ?g6 ?now)"
    unfolding countdown_over_def by simp
  then show ?thesis
    unfolding s step.simps cb .
qed

lemma countdown_step_over:
  assumes "countdown_over sid s"
  shows "countdown_over sid (step s (t, IntervalFires 0))"
proof -
  obtain c g where s: "s = (c, g)" by (cases s)
  have "intervals g 0 = None" using assms s by (simp add: countdown_over_def)
  then have "step s (t, IntervalFires 0) = s"
    by (simp add: s intervalCallback_cleared)
  then show ?thesis using assms by simp
qed

lemma run_Cons: "run s (e # es) = run (step s e) es"
  by (simp add: run_def)

lemma run_snoc: "run s (es @ [e]) = step (run s es) e"
  by (simp add: run_def)

lemma countdown_events_Suc:
  "countdown_events t0 h (Suc n) = countdown_events t0 h n @ [(t0 + 1000 * int (Suc n), IntervalFires h)]"
  by (simp add: countdown_events_def)

lemma countdown_run_running:
  "n \<le> 9 \<Longrightarrow>
     countdown_running sid t0 n
       (run (c, initialGateway)
          ((t0, Start (config\<lparr> durationSec := 10 \<rparr>) sid) # countdown_events t0 0 n))"
proof (induction n)
  case 0
  show ?case
    using countdown_start [of sid t0 config c]
    by (simp add: run_def countdown_events_def)
next
  case (Suc n)
  then have "countdown_running sid t0 n
       (run (c, initialGateway)
          ((t0, Start (config\<lparr> durationSec := 10 \<rparr>) sid) # countdown_events t0 0 n))"
    and "n < 9" by simp_all
  from countdown_step_running [OF this]
  show ?case
    by (simp only: countdown_events_Suc append_Cons [symmetric] run_snoc)
qed

lemma countdown_run_over:
  "10 \<le> n \<Longrightarrow>
     countdown_over sid
       (run (c, initialGateway)
          ((t0, Start (config\<lparr> durationSec := 10 \<rparr>) sid) # countdown_events t0 0 n))"
proof (induction n rule: dec_induct)
  case base
  have "countdown_events t0 0 10 = countdown_events t0 0 9 @ [(t0 + 1000 * int 10, IntervalFires 0)]"
    using countdown_events_Suc [of t0 0 9] by simp
  then show ?case
    using countdown_step_last [OF countdown_run_running [of 9 sid t0 c config]]
    by (simp only: append_Cons [symmetric] run_snoc) 
next
  case (step n)
  from countdown_step_over [OF step.IH]
  show ?case
    by (simp only: countdown_events_Suc append_Cons [symmetric] run_snoc)
qed

text \<open>
  Claim C9. A session started with \<open>durationSec = 10\<close> on a fresh gateway, its interval
  running once a second: after \<open>n\<close> runs there are no tick broadcasts for \<open>n < 5\<close>, one
  for \<open>5 \<le> n < 10\<close> and two from the tenth run on, however long the interval is
  fired; there is no \<open>sim:ended\<close> emission and no update before the tenth run, and from
  the tenth run on exactly one emission and one update, with the reason \<open>TIMEOUT\<close>.
\<close>

theorem countdown_ten_seconds:
  "length (ticks_of sid (snd (run (c, initialGateway)
      ((t0, Start (config\<lparr> durationSec := 10 \<rparr>) sid) # countdown_events t0 0 n))))
     = (if n < 5 then 0 else if n < 10 then 1 else 2)
   \<and> length (ended_of sid (snd (run (c, initialGateway)
      ((t0, Start (config\<lparr> durationSec := 10 \<rparr>) sid) # countdown_events t0 0 n))))
     = (if n < 10 then 0 else 1)
   \<and> end_reasons sid (snd (run (c, initialGateway)
      ((t0, Start (config\<lparr> durationSec := 10 \<rparr>) sid) # countdown_events t0 0 n)))
     = (if n < 10 then [] else [''TIMEOUT''])"
proof (cases "n < 10")
  case True
  then have "n \<le> 9" by simp
  from countdown_run_running [OF this, of sid t0 c config] True
  show ?thesis by (simp add: countdown_running_def)
next
  case False
  then have "10 \<le> n" by simp
  from countdown_run_over [OF this, of sid c t0 config] False
  show ?thesis by (simp add: countdown_over_def)
qed

lemma handleStart_counts:
  "updates_of sid (snd (handleStart config c g newId now)) = updates_of sid g"
  "ended_of sid (snd (handleStart config c g newId now)) = ended_of sid g"
  "end_reasons sid (snd (handleStart config c g newId now)) = end_reasons sid g"
proof -
  from handleStart_fields(5) [of config c g newId now]
  obtain row where row: "prisma (snd (handleStart config c g newId now)) = prisma g @ [SessionCreated newId row]"
    by blast
  show "updates_of sid (snd (handleStart config c g newId now)) = updates_of sid g"
    by (simp add: updates_of_def row is_update_def)
  show "ended_of sid (snd (handleStart config c g newId now)) = ended_of sid g"
    by (simp add: ended_of_def handleStart_fields(6) is_ended_def)
  show "end_reasons sid (snd (handleStart config c g newId now)) = end_reasons sid g"
    by (simp add: end_reasons_def row)
qed

lemma initialGateway_logs:
  "updates_of sid initialGateway = []" "ended_of sid initialGateway = []"
  "end_reasons sid initialGateway = []"
  by (simp_all add: updates_of_def ended_of_def end_reasons_def initialGateway_def)

lemma step_projections:
  "step s (now, End r) = handleEnd r (fst s) (snd s) now"
  "step s (now, Start config newId) = handleStart config (fst s) (snd s) newId now"
  "step s (now, Frame f rnd) = handleVoiceFrame f (fst s) (snd s) now rnd"
  "step s (now, Disconnect) = (fst s, handleDisconnect (fst s) (snd s))"
  "step s (now, TimeoutsFire) = (fst s, runTimeouts (snd s) now)"
  "step s (now, IntervalFires h) = intervalCallback h (fst s) (snd s) now"
  by (cases s, simp)+

lemma run_Nil: "run s [] = s"
  by (simp add: run_def)

theorem handleEnd_twice_witness:
  "sessionId (fst (handleStart (sample_config 600) sample_client initialGateway ''s1'' 0)) = Some ''s1''
   \<and> length (updates_of ''s1''
        (snd (handleEnd (Some ''TIMEOUT'')
               (fst (handleEnd None
                      (fst (handleStart (sample_config 600) sample_client initialGateway ''s1'' 0))
                      (snd (handleStart (sample_config 600) sample_client initialGateway ''s1'' 0)) 5000))
               (snd (handleEnd None
                      (fst (handleStart (sample_config 600) sample_client initialGateway ''s1'' 0))
                      (snd (handleStart (sample_config 600) sample_client initialGateway ''s1'' 0)) 5000))
               6000))) = 2"
proof -
  let ?c = "fst (handleStart (sample_config 600) sample_client initialGateway ''s1'' 0)"
  let ?g = "snd (handleStart (sample_config 600) sample_client initialGateway ''s1'' 0)"
  have h: "sessionId ?c = Some ''s1''" by (rule handleStart_fields(1))
  have u: "length (updates_of ''s1'' ?g) = 0"
    by (simp add: handleStart_counts initialGateway_logs)
  from handleEnd_twice [OF h, of "Some ''TIMEOUT''" None ?g 5000 6000] h u
  show ?thesis by simp
qed

text \<open>
  The claim as stated fails: a session ended twice by the client has two updates and two
  \<open>sim:ended\<close> emissions, and a ten-second session that timed out and is then ended by
  the client has the updates \<open>TIMEOUT\<close> and \<open>MANUAL\<close>.
\<close>

theorem end_twice_counterexample:
  "length (updates_of ''s1'' (snd (run (sample_client, initialGateway)
      [(0, Start (sample_config 600) ''s1''), (5000, End None), (6000, End None)]))) = 2
   \<and> length (ended_of ''s1'' (snd (run (sample_client, initialGateway)
      [(0, Start (sample_config 600) ''s1''), (5000, End None), (6000, End None)]))) = 2
   \<and> end_reasons ''s1'' (snd (run (sample_client, initialGateway)
      ((0, Start ((sample_config 600)\<lparr> durationSec := 10 \<rparr>) ''s1'') # countdown_events 0 0 10
         @ [(10500, End None)])))
       = [''TIMEOUT'', ''MANUAL'']"
proof -
  let ?c = "fst (handleStart (sample_config 600) sample_client initialGateway ''s1'' 0)"
  let ?g = "snd (handleStart (sample_config 600) sample_client initialGateway ''s1'' 0)"
  have h: "sessionId ?c = Some ''s1''" by (rule handleStart_fields(1))
  let ?g1 = "snd (handleEnd None ?c ?g 5000)"
  have c1: "fst (handleEnd None ?c ?g 5000) = ?c" by (rule handleEnd_fields(1) [OF h])
  have r: "run (sample_client, initialGateway)
      [(0, Start (sample_config 600) ''s1''), (5000, End None), (6000, End None)]
      = handleEnd None ?c ?g1 6000"
    by (simp only: run_Cons run_Nil step_projections fst_conv snd_conv c1)
  have a: "length (updates_of ''s1'' (snd (handleEnd None ?c ?g1 6000))) = 2"
    using handleEnd_counts(1) [OF h, of None ?g1 6000] handleEnd_counts(1) [OF h, of None ?g 5000]
    by (simp add: handleStart_counts initialGateway_logs)
  have b: "length (ended_of ''s1'' (snd (handleEnd None ?c ?g1 6000))) = 2"
    using handleEnd_counts(2) [OF h, of None ?g1 6000] handleEnd_counts(2) [OF h, of None ?g 5000]
    by (simp add: handleStart_counts initialGateway_logs)
  let ?s = "run (sample_client, initialGateway)
      ((0, Start ((sample_config 600)\<lparr> durationSec := 10 \<rparr>) ''s1'') # countdown_events 0 0 10)"
  have ov: "countdown_over ''s1'' ?s"
    by (rule countdown_run_over) simp
  then have s1: "sessionId (fst ?s) = Some ''s1''" and rs: "end_reasons ''s1'' (snd ?s) = [''TIMEOUT'']"
    by (simp_all add: countdown_over_def)
  have "run (sample_client, initialGateway)
      ((0, Start ((sample_config 600)\<lparr> durationSec := 10 \<rparr>) ''s1'') # countdown_events 0 0 10
         @ [(10500, End None)]) = step ?s (10500, End None)"
    by (simp only: append_Cons [symmetric] run_snoc)
  also have "\<dots> = handleEnd None (fst ?s) (snd ?s) 10500"
    by (rule step_projections(1))
  finally have c: "end_reasons ''s1'' (snd (run (sample_client, initialGateway)
      ((0, Start ((sample_config 600)\<lparr> durationSec := 10 \<rparr>) ''s1'') # countdown_events 0 0 10
         @ [(10500, End None)]))) = [''TIMEOUT'', ''MANUAL'']"
    using handleEnd_counts(3) [OF s1, of None "snd ?s" 10500] rs by simp
  show ?thesis using a b c unfolding r by blast
qed

lemma stored_status_snoc_update:
  "stored_status (ws @ [SessionUpdated sid u]) sid = Some (status_u u)"
  by (induction ws sid rule: stored_status.induct) simp_all

lemma stored_status_snoc_create:
  "stored_status (ws @ [SessionCreated sid row]) sid = Some (status_c row)"
  by (induction ws sid rule: stored_status.induct) simp_all

text \<open>
  Claim C2, as amended. A disconnect cancels the countdown timer and finalizes both
  sub-components as an explicit end does (same timers, intervals, analyzer and pressure
  engine afterwards), and it writes nothing to the store and emits nothing.
\<close>

theorem handleDisconnect_in_memory_only:
  "timers (handleDisconnect c g) = timers (snd (handleEnd r c g now))
   \<and> intervals (handleDisconnect c g) = intervals (snd (handleEnd r c g now))
   \<and> voiceAnalysis (handleDisconnect c g) = voiceAnalysis (snd (handleEnd r c g now))
   \<and> pressureEngine (handleDisconnect c g) = pressureEngine (snd (handleEnd r c g now))
   \<and> prisma (handleDisconnect c g) = prisma g
   \<and> emitted (handleDisconnect c g) = emitted g"
proof (cases "sessionId c")
  case None
  then show ?thesis by (simp add: handleDisconnect_no_session handleEnd_no_session)
next
  case (Some sid)
  show ?thesis
    by (simp add: handleDisconnect_fields [OF Some] handleEnd_fields [OF Some])
qed

text \<open>
  The claim as stated fails: after a disconnect the store still holds the started session
  as \<open>ACTIVE\<close> and has no end reason for it, where an explicit end with the reason
  \<open>abrupt-disconnect\<close> leaves it \<open>COMPLETED\<close> with that reason.
\<close>

theorem handleDisconnect_counterexample:
  "stored_status (prisma (handleDisconnect
       (fst (handleStart (sample_config 600) sample_client initialGateway ''s1'' 0))
       (snd (handleStart (sample_config 600) sample_client initialGateway ''s1'' 0)))) ''s1''
     = Some ACTIVE
   \<and> stored_status (prisma (snd (handleEnd (Some ''abrupt-disconnect'')
       (fst (handleStart (sample_config 600) sample_client initialGateway ''s1'' 0))
       (snd (handleStart (sample_config 600) sample_client initialGateway ''s1'' 0)) 5000))) ''s1''
     = Some COMPLETED
   \<and> end_reasons ''s1'' (handleDisconnect
       (fst (handleStart (sample_config 600) sample_client initialGateway ''s1'' 0))
       (snd (handleStart (sample_config 600) sample_client initialGateway ''s1'' 0))) = []
   \<and> end_reasons ''s1'' (snd (handleEnd (Some ''abrupt-disconnect'')
       (fst (handleStart (sample_config 600) sample_client initialGateway ''s1'' 0))
       (snd (handleStart (sample_config 600) sample_client initialGateway ''s1'' 0)) 5000))
     = [''abrupt-disconnect'']"
proof -
  let ?c = "fst (handleStart (sample_config 600) sample_client initialGateway ''s1'' 0)"
  let ?g = "snd (handleStart (sample_config 600) sample_client initialGateway ''s1'' 0)"
  have h: "sessionId ?c = Some ''s1''" by (rule handleStart_fields(1))
  from handleStart_fields(5) [of "sample_config 600" sample_client initialGateway "''s1''" 0]
  obtain row where row: "prisma ?g = prisma initialGateway @ [SessionCreated ''s1'' row]"
    and act: "status_c row = ACTIVE" by blast
  from handleEnd_fields(8) [OF h, of "Some ''abrupt-disconnect''" ?g 5000]
  obtain u where u: "prisma (snd (handleEnd (Some ''abrupt-disconnect'') ?c ?g 5000))
                       = prisma ?g @ [SessionUpdated ''s1'' u]"
    and cmp: "status_u u = COMPLETED" by blast
  have a: "stored_status (prisma (handleDisconnect ?c ?g)) ''s1'' = Some ACTIVE"
    by (simp only: handleDisconnect_fields(7) [OF h] row stored_status_snoc_create act)
  have b: "stored_status (prisma (snd (handleEnd (Some ''abrupt-disconnect'') ?c ?g 5000))) ''s1''
             = Some COMPLETED"
    by (simp only: u stored_status_snoc_update cmp)
  have g0: "end_reasons ''s1'' ?g = []"
    by (simp add: handleStart_counts initialGateway_logs)
  have c: "end_reasons ''s1'' (handleDisconnect ?c ?g) = []"
    using end_reasons_prisma [OF handleDisconnect_fields(7) [OF h, of ?g], of "''s1''"] g0 by simp
  have d: "end_reasons ''s1'' (snd (handleEnd (Some ''abrupt-disconnect'') ?c ?g 5000))
             = [''abrupt-disconnect'']"
    using handleEnd_counts(3) [OF h, of "Some ''abrupt-disconnect''" ?g 5000] g0 by simp
  show ?thesis using a b c d by blast
qed

lemma foldl_emit_interrupts:
  "emitted (foldl (\<lambda>ga t. emit (ToClient (to_client t) (AiInterrupt (to_decision t))) ga) g ts)
     = emitted g @ map (\<lambda>t. ToClient (to_client t) (AiInterrupt (to_decision t))) ts"
  by (induction ts arbitrary: g) (simp_all add: emit_def)

lemma runTimeouts_emitted:
  "emitted (runTimeouts g now)
     = emitted g @ map (\<lambda>t. ToClient (to_client t) (AiInterrupt (to_decision t)))
                     (sort_key to_due (filter (\<lambda>t. to_due t \<le> now) (timeouts g)))"
  unfolding runTimeouts_def Let_def
  by (simp add: foldl_emit_interrupts)

text \<open>
  Claim C8, as amended. Ending a session, or a disconnect, leaves the pending one-shots of
  delayed interrupts in place; when they are due after the end, each is emitted to its
  socket, after the \<open>sim:ended\<close> emission.
\<close>

theorem delayed_interrupt_not_cancelled:
  "timeouts (snd (handleEnd r c g now)) = timeouts g
   \<and> timeouts (handleDisconnect c g) = timeouts g
   \<and> emitted (runTimeouts (snd (handleEnd r c g now)) later)
       = emitted (snd (handleEnd r c g now))
           @ map (\<lambda>t. ToClient (to_client t) (AiInterrupt (to_decision t)))
               (sort_key to_due (filter (\<lambda>t. to_due t \<le> later) (timeouts g)))"
proof -
  have a: "timeouts (snd (handleEnd r c g now)) = timeouts g"
    by (cases "sessionId c") (simp_all add: handleEnd_no_session handleEnd_fields(4))
  have b: "timeouts (handleDisconnect c g) = timeouts g"
    by (cases "sessionId c") (simp_all add: handleDisconnect_no_session handleDisconnect_fields(3))
  show ?thesis
    using a b runTimeouts_emitted [of "snd (handleEnd r c g now)" later] by simp
qed

lemma sample_draws_values:
  "draw_value (r_fire sample_draws) = 0"
  "draw_value (r_category sample_draws) = 1 / 2"
  "draw_value (r_template sample_draws) = 1 / 2"
  "draw_value (r_immediate sample_draws) = 1 / 2"
  "draw_value (r_delay sample_draws) = 1 / 2"
  by (simp_all add: sample_draws_def Draw_inverse)

lemma first_interrupt_fires:
  assumes "states sid = Some \<lparr> currentLevel = 1, interruptionCount = 0, challengeCount = 0,
         lastInterruptionAt = 0, candidateStepBacks = 0, escalationTriggers = [] \<rparr>"
  shows "\<exists>d states'. evaluateInterruption states sid m 21000 40 sample_draws = Inr (d, states')
           \<and> shouldInterrupt d \<and> waitBeforeMs d = 1000"
proof -
  have p: "\<not> (0::real) > 3 / 10 + real_of_int 1 * (12 / 100)
                 + (if confidenceScore m > 70 then 15 / 100 else 0)
                 + (if confidenceScore m > 85 then 15 / 100 else 0)"
    by simp
  show ?thesis
    unfolding evaluateInterruption_def Let_def
    using p
    by (simp add: assms sample_draws_values INTERRUPTIONS_def)
qed


lemma handleVoiceFrame_delayed:
  assumes sess: "sessionId c = Some sid"
      and prev: "previousMetrics c = None"
      and st: "sessionStartMs c = Some 0"
      and tr: "transcript f \<noteq> []"
      and wd: "wordsSinceLastInterrupt c + wordCount f = 40"
      and pe: "pressureEngine g sid = Some \<lparr> currentLevel = 1, interruptionCount = 0,
                 challengeCount = 0, lastInterruptionAt = 0, candidateStepBacks = 0,
                 escalationTriggers = [] \<rparr>"
  shows "\<exists>d m. timeouts (snd (handleVoiceFrame f c g 21000 sample_draws))
                  = timeouts g @ [\<lparr> to_due = 22000, to_client = socket_id c, to_decision = d \<rparr>]
              \<and> emitted (snd (handleVoiceFrame f c g 21000 sample_draws))
                  = emitted g @ [ToClient (socket_id c) (Metrics m)]
              \<and> sessionId (fst (handleVoiceFrame f c g 21000 sample_draws)) = Some sid
              \<and> socket_id (fst (handleVoiceFrame f c g 21000 sample_draws)) = socket_id c"
proof -
  obtain m va where pf: "processFrame (voiceAnalysis g) sid f 21000 = (m, va)"
    by (cases "processFrame (voiceAnalysis g) sid f 21000")
  from first_interrupt_fires [of "pressureEngine g" sid m] pe
  obtain d states' where ev: "evaluateInterruption (pressureEngine g) sid m 21000 40 sample_draws = Inr (d, states')"
    and si: "shouldInterrupt d" and wt: "waitBeforeMs d = 1000"
    by blast
  show ?thesis
    unfolding handleVoiceFrame_def Let_def
    by (simp add: sess prev st tr wd pf detectStepBack_no_previous emit_def ev si wt)
qed

text \<open>
  The claim as stated fails: a frame at 21 s draws an interrupt with a delay of one second,
  the client ends the session at 21.5 s, and at 22 s the interrupt is emitted, after
  \<open>sim:ended\<close>.
\<close>

theorem delayed_interrupt_counterexample:
  "map event_name (emitted (snd (run (sample_client, initialGateway)
      [(0, Start (sample_config 600) ''s1''),
       (21000, Frame (sample_frame 21000 0 (1 / 2)) sample_draws),
       (21500, End None),
       (22000, TimeoutsFire)])))
   = [''sim:ai_speak'', ''sim:started'', ''sim:metrics'', ''sim:ended'', ''sim:ai_interrupt'']"
proof -
  let ?c1 = "fst (handleStart (sample_config 600) sample_client initialGateway ''s1'' 0)"
  let ?g1 = "snd (handleStart (sample_config 600) sample_client initialGateway ''s1'' 0)"
  let ?f = "sample_frame 21000 0 (1 / 2)"
  let ?s2 = "handleVoiceFrame ?f ?c1 ?g1 21000 sample_draws"
  let ?s3 = "handleEnd None (fst ?s2) (snd ?s2) 21500"
  have r: "run (sample_client, initialGateway)
      [(0, Start (sample_config 600) ''s1''),
       (21000, Frame (sample_frame 21000 0 (1 / 2)) sample_draws),
       (21500, End None),
       (22000, TimeoutsFire)] = (fst ?s3, runTimeouts (snd ?s3) 22000)"
    by (simp only: run_Cons run_Nil step_projections fst_conv snd_conv)
  have c1: "sessionId ?c1 = Some ''s1''" "socket_id ?c1 = ''c1''" "sessionStartMs ?c1 = Some 0"
    by (simp_all add: handleStart_fields sample_client_def)
  have c1': "previousMetrics ?c1 = None" "wordsSinceLastInterrupt ?c1 + wordCount ?f = 40"
    unfolding handleStart_def Let_def by (simp_all add: sample_client_def sample_frame_def)
  have pe: "pressureEngine ?g1 ''s1'' = Some \<lparr> currentLevel = 1, interruptionCount = 0,
                 challengeCount = 0, lastInterruptionAt = 0, candidateStepBacks = 0,
                 escalationTriggers = [] \<rparr>"
    by (simp add: handleStart_fields pressure_initSession_def)
  have e1: "emitted ?g1 = [ToClient ''c1'' (AiSpeak OPENING 1),
                           ToClient ''c1'' (Started ''s1'' PGT 600)]"
    by (simp add: handleStart_fields sample_client_def sample_config_def initialGateway_def)
  have t1: "timeouts ?g1 = []"
    by (simp add: handleStart_fields initialGateway_def)
  have tr: "transcript ?f \<noteq> []" by (simp add: sample_frame_def)
  from handleVoiceFrame_delayed [OF c1(1) c1'(1) c1(3) tr c1'(2) pe]
  obtain d m where t2: "timeouts (snd ?s2) = [\<lparr> to_due = 22000, to_client = ''c1'', to_decision = d \<rparr>]"
    and e2: "emitted (snd ?s2) = emitted ?g1 @ [ToClient ''c1'' (Metrics m)]"
    and c2: "sessionId (fst ?s2) = Some ''s1''" "socket_id (fst ?s2) = ''c1''"
    unfolding t1 c1(2) by auto
  from handleEnd_fields(9) [OF c2(1), of None "snd ?s2" 21500]
  obtain p where e3: "emitted (snd ?s3) = emitted (snd ?s2) @ [ToClient ''c1'' (Ended p)]"
    unfolding c2(2) by blast
  have t3: "timeouts (snd ?s3) = timeouts (snd ?s2)"
    by (rule handleEnd_fields(4) [OF c2(1)])
  have "emitted (runTimeouts (snd ?s3) 22000)
          = [ToClient ''c1'' (AiSpeak OPENING 1), ToClient ''c1'' (Started ''s1'' PGT 600),
             ToClient ''c1'' (Metrics m), ToClient ''c1'' (Ended p), ToClient ''c1'' (AiInterrupt d)]"
    by (simp add: runTimeouts_emitted t3 t2 e3 e2 e1)
  then show ?thesis
    unfolding r snd_conv by (simp add: event_name_def)
qed


end

